theory Spec2Isabelle
  imports Main "HOL-Library.Multiset" "HOL-Library.List_Lexorder" "HOL-Library.Char_ord"
begin

section \<open>Hospital management system (hms.c): data model\<close>

text \<open>
  The program keeps four global arrays of fixed capacity, four counts and four
  next-id counters. A C \<^verbatim>\<open>int\<close> is modelled as an \<^typ>\<open>int\<close>; the only place
  where a value can leave the 32-bit range is the post-increment of a next-id
  counter, which is written with the two's complement wrap-around. A character
  buffer is modelled by the C string it holds (the bytes before the first NUL).
  An array is a function from the index; only the cells below the count are live.
  The guards of the program keep every index below the capacity of its array, so
  the capacity is not part of the array's type.

  The terminal is outside the model: an operation receives the lines and the
  integers that its prompts would read, and returns the message it ends with
  together with the new values of the globals.
\<close>

definition MAX_PATIENTS :: int where "MAX_PATIENTS = 500"
definition MAX_DISEASES :: int where "MAX_DISEASES = 200"
definition MAX_DOCTORS :: int where "MAX_DOCTORS = 100"
definition MAX_APPOINTS :: int where "MAX_APPOINTS = 1000"

record Patient =
  p_id :: int
  p_name :: string
  p_age :: int
  p_gender :: string
  p_phone :: string
  p_disease :: string
  p_doctorId :: int

record Disease =
  ds_id :: int
  ds_name :: string
  ds_symptoms :: string
  ds_treatment :: string

record Doctor =
  d_id :: int
  d_name :: string
  d_specialization :: string
  d_phone :: string

record Appointment =
  a_id :: int
  a_patientId :: int
  a_doctorId :: int
  a_date :: string
  a_time :: string

record state =
  patients :: "nat \<Rightarrow> Patient"
  diseases :: "nat \<Rightarrow> Disease"
  doctors :: "nat \<Rightarrow> Doctor"
  appointments :: "nat \<Rightarrow> Appointment"
  patientCount :: int
  diseaseCount :: int
  doctorCount :: int
  appointmentCount :: int
  nextPatientId :: int
  nextDiseaseId :: int
  nextDoctorId :: int
  nextAppointmentId :: int

text \<open>The zero-initialised globals of a fresh process, with the counters at 1.\<close>

definition zero_Patient :: Patient where
  "zero_Patient = \<lparr>p_id = 0, p_name = [], p_age = 0, p_gender = [], p_phone = [],
     p_disease = [], p_doctorId = 0\<rparr>"

definition zero_Disease :: Disease where
  "zero_Disease = \<lparr>ds_id = 0, ds_name = [], ds_symptoms = [], ds_treatment = []\<rparr>"

definition zero_Doctor :: Doctor where
  "zero_Doctor = \<lparr>d_id = 0, d_name = [], d_specialization = [], d_phone = []\<rparr>"

definition zero_Appointment :: Appointment where
  "zero_Appointment = \<lparr>a_id = 0, a_patientId = 0, a_doctorId = 0, a_date = [], a_time = []\<rparr>"

definition initial_state :: state where
  "initial_state = \<lparr>patients = (\<lambda>_. zero_Patient), diseases = (\<lambda>_. zero_Disease),
     doctors = (\<lambda>_. zero_Doctor), appointments = (\<lambda>_. zero_Appointment),
     patientCount = 0, diseaseCount = 0, doctorCount = 0, appointmentCount = 0,
     nextPatientId = 1, nextDiseaseId = 1, nextDoctorId = 1, nextAppointmentId = 1\<rparr>"

text \<open>The live part of an array: the cells \<open>0 .. count - 1\<close>, in order.\<close>

definition live :: "(nat \<Rightarrow> 'a) \<Rightarrow> int \<Rightarrow> 'a list" where
  "live arr n = map arr [0..<nat n]"

definition live_patients :: "state \<Rightarrow> Patient list" where
  "live_patients st = live (patients st) (patientCount st)"

definition live_diseases :: "state \<Rightarrow> Disease list" where
  "live_diseases st = live (diseases st) (diseaseCount st)"

definition live_doctors :: "state \<Rightarrow> Doctor list" where
  "live_doctors st = live (doctors st) (doctorCount st)"

definition live_appointments :: "state \<Rightarrow> Appointment list" where
  "live_appointments st = live (appointments st) (appointmentCount st)"

text \<open>What an operation reports to the user (the message it ends with).\<close>

datatype result =
    PatientAdded int           \<comment> \<open>Patient added successfully! (ID: n)\<close>
  | DoctorAdded int            \<comment> \<open>Doctor added successfully! (ID: n)\<close>
  | DiseaseAdded int           \<comment> \<open>Disease reference added successfully! (ID: n)\<close>
  | AppointmentScheduled int   \<comment> \<open>Appointment scheduled (ID: n)\<close>
  | CapacityExceeded           \<comment> \<open>Max patients / doctors / diseases / appointments reached.\<close>
  | NeedPatientAndDoctor       \<comment> \<open>Need at least one patient and one doctor to schedule.\<close>
  | InvalidReference           \<comment> \<open>Invalid patient or doctor ID.\<close>
  | InvalidId                  \<comment> \<open>Invalid ID. (the id entered is not positive)\<close>
  | NotFound                   \<comment> \<open>No patient / appointment found with ID n.\<close>
  | Removed                    \<comment> \<open>Patient deleted successfully. / Appointment canceled.\<close>
  | NotConfirmed               \<comment> \<open>Deletion canceled. / Canceled.\<close>
  | NotEnoughToSort            \<comment> \<open>Not enough patients to sort.\<close>
  | Sorted                     \<comment> \<open>Patients sorted by name.\<close>
  | Saved                      \<comment> \<open>Data saved successfully.\<close>
  | IOFailure                  \<comment> \<open>Error: Could not open save file for writing.\<close>

section \<open>Utilities\<close>

text \<open>
  \<^verbatim>\<open>x++\<close> on an \<^verbatim>\<open>int\<close>: the successor, wrapping from \<^verbatim>\<open>INT_MAX\<close> to
  \<^verbatim>\<open>INT_MIN\<close>.
\<close>

definition INT_MAX :: int where "INT_MAX = 2147483647"
definition INT_MIN :: int where "INT_MIN = - 2147483648"

definition int_incr :: "int \<Rightarrow> int" where
  "int_incr x = (x + 1 + 2147483648) mod 4294967296 - 2147483648"

definition NUL :: char where "NUL = CHR 0x00"

text \<open>The C string held by a byte sequence: it ends before the first NUL.\<close>

definition cstr :: "string \<Rightarrow> string" where
  "cstr s = takeWhile (\<lambda>c. c \<noteq> NUL) s"

text \<open>
  \<^verbatim>\<open>getLine(prompt, buffer, sz)\<close> applied to one line of input (without its
  newline): \<^verbatim>\<open>fgets\<close> keeps at most \<open>sz - 1\<close> characters, the rest of the
  line is discarded.
\<close>

definition getLine :: "nat \<Rightarrow> string \<Rightarrow> string" where
  "getLine sz line = cstr (take (sz - 1) line)"

text \<open>
  \<^verbatim>\<open>strncpy(dst, src, sizeof(dst)-1); dst[sizeof(dst)-1] = '\0';\<close> as the C string
  that \<open>dst\<close> holds afterwards.
\<close>

definition strncpy_field :: "nat \<Rightarrow> string \<Rightarrow> string" where
  "strncpy_field n src = take (n - 1) (cstr src)"

text \<open>
  \<^verbatim>\<open>tolower\<close> in the C locale (the program never calls \<^verbatim>\<open>setlocale\<close>), on the
  value of an \<^verbatim>\<open>unsigned char\<close>.
\<close>

definition tolower :: "int \<Rightarrow> int" where
  "tolower v = (if 65 \<le> v \<and> v \<le> 90 then v + 32 else v)"

text \<open>
  The conversion of a value \<open>0 .. 255\<close> to \<^verbatim>\<open>char\<close>. Whether \<^verbatim>\<open>char\<close> is signed
  is implementation-defined, so it is a parameter (\<open>True\<close> for gcc on x86).
\<close>

definition to_char :: "bool \<Rightarrow> int \<Rightarrow> int" where
  "to_char sg v = (if sg \<and> 128 \<le> v then v - 256 else v)"

text \<open>The byte a \<^verbatim>\<open>const char *\<close> points at: NUL at the end of the string.\<close>

fun peek :: "string \<Rightarrow> int" where
  "peek [] = 0"
| "peek (c # _) = of_char c"

fun stricmp_custom :: "bool \<Rightarrow> string \<Rightarrow> string \<Rightarrow> int" where
  "stricmp_custom sg (x # xs) (y # ys) =
     (if x \<noteq> NUL \<and> y \<noteq> NUL then
        (let ca = to_char sg (tolower (of_char x));
             cb = to_char sg (tolower (of_char y))
         in if ca \<noteq> cb then ca - cb else stricmp_custom sg xs ys)
      else tolower (of_char x) - tolower (of_char y))"
| "stricmp_custom sg [] b = tolower (peek []) - tolower (peek b)"
| "stricmp_custom sg (x # xs) [] = tolower (peek (x # xs)) - tolower (peek [])"

text \<open>
  The three finder functions are the same loop over the id column of their table:
  \<^verbatim>\<open>for (int i = 0; i < count; i++) if (table[i].id == id) return i; return -1;\<close>
\<close>

function find_index_from :: "(nat \<Rightarrow> int) \<Rightarrow> int \<Rightarrow> int \<Rightarrow> int \<Rightarrow> int" where
  "find_index_from ids n ident i =
     (if i < n then (if ids (nat i) = ident then i else find_index_from ids n ident (i + 1))
      else - 1)"
  by pat_completeness auto
termination
  by (relation "measure (\<lambda>(ids, n, ident, i). nat (n - i))") auto

declare find_index_from.simps [simp del]

definition findPatientIndex :: "state \<Rightarrow> int \<Rightarrow> int" where
  "findPatientIndex st ident =
     find_index_from (\<lambda>i. p_id (patients st i)) (patientCount st) ident 0"

definition findDoctorIndex :: "state \<Rightarrow> int \<Rightarrow> int" where
  "findDoctorIndex st ident =
     find_index_from (\<lambda>i. d_id (doctors st i)) (doctorCount st) ident 0"

definition findAppointmentIndex :: "state \<Rightarrow> int \<Rightarrow> int" where
  "findAppointmentIndex st ident =
     find_index_from (\<lambda>i. a_id (appointments st i)) (appointmentCount st) ident 0"

definition getPatientName :: "state \<Rightarrow> int \<Rightarrow> string" where
  "getPatientName st ident =
     (let i = findPatientIndex st ident
      in if i \<noteq> - 1 then p_name (patients st (nat i)) else ''Unknown'')"

section \<open>Doctor, patient and disease operations\<close>

text \<open>
  Every operation takes the state and the values that the prompts deliver (a line
  of text for \<^verbatim>\<open>getLine\<close>, the integer for \<^verbatim>\<open>get_int_from_user\<close>) and returns
  its report with the new state. Writing \<^verbatim>\<open>table[count++] = r\<close> stores at index
  \<open>count\<close>; the guard before it keeps the index below the capacity.
\<close>

definition addDoctor :: "state \<Rightarrow> string \<Rightarrow> string \<Rightarrow> string \<Rightarrow> result \<times> state" where
  "addDoctor st name_in spec_in phone_in =
     (if doctorCount st \<ge> MAX_DOCTORS then (CapacityExceeded, st)
      else
        let d = \<lparr>d_id = nextDoctorId st,
                 d_name = strncpy_field 100 (getLine 200 name_in),
                 d_specialization = strncpy_field 100 (getLine 200 spec_in),
                 d_phone = strncpy_field 20 (getLine 200 phone_in)\<rparr>
        in (DoctorAdded (d_id d),
            st\<lparr>nextDoctorId := int_incr (nextDoctorId st),
               doctors := (doctors st)(nat (doctorCount st) := d),
               doctorCount := doctorCount st + 1\<rparr>))"

text \<open>
  The doctor id is only asked for when a doctor exists; \<open>docId\<close> is the answer
  to that prompt and is ignored otherwise.
\<close>

definition addPatient ::
  "state \<Rightarrow> string \<Rightarrow> int \<Rightarrow> string \<Rightarrow> string \<Rightarrow> string \<Rightarrow> int \<Rightarrow> result \<times> state" where
  "addPatient st name_in age gender_in phone_in disease_in docId =
     (if patientCount st \<ge> MAX_PATIENTS then (CapacityExceeded, st)
      else
        let p = \<lparr>p_id = nextPatientId st,
                 p_name = strncpy_field 100 (getLine 200 name_in),
                 p_age = age,
                 p_gender = strncpy_field 10 (getLine 200 gender_in),
                 p_phone = strncpy_field 20 (getLine 200 phone_in),
                 p_disease = strncpy_field 100 (getLine 200 disease_in),
                 p_doctorId =
                   (if doctorCount st > 0 then
                      (if docId \<noteq> 0 \<and> findDoctorIndex st docId \<noteq> - 1 then docId else 0)
                    else 0)\<rparr>
        in (PatientAdded (p_id p),
            st\<lparr>nextPatientId := int_incr (nextPatientId st),
               patients := (patients st)(nat (patientCount st) := p),
               patientCount := patientCount st + 1\<rparr>))"

definition addDisease :: "state \<Rightarrow> string \<Rightarrow> string \<Rightarrow> string \<Rightarrow> result \<times> state" where
  "addDisease st name_in symptoms_in treatment_in =
     (if diseaseCount st \<ge> MAX_DISEASES then (CapacityExceeded, st)
      else
        let d = \<lparr>ds_id = nextDiseaseId st,
                 ds_name = strncpy_field 100 (getLine 300 name_in),
                 ds_symptoms = strncpy_field 200 (getLine 300 symptoms_in),
                 ds_treatment = strncpy_field 200 (getLine 300 treatment_in)\<rparr>
        in (DiseaseAdded (ds_id d),
            st\<lparr>nextDiseaseId := int_incr (nextDiseaseId st),
               diseases := (diseases st)(nat (diseaseCount st) := d),
               diseaseCount := diseaseCount st + 1\<rparr>))"

text \<open>
  The shift loop of both delete operations:
  \<^verbatim>\<open>for (int j = i; j < count - 1; j++) table[j] = table[j+1];\<close>
\<close>

function shift_left :: "(nat \<Rightarrow> 'a) \<Rightarrow> int \<Rightarrow> int \<Rightarrow> (nat \<Rightarrow> 'a)" where
  "shift_left arr j n =
     (if j < n - 1 then shift_left (arr(nat j := arr (nat (j + 1)))) (j + 1) n else arr)"
  by pat_completeness auto
termination
  by (relation "measure (\<lambda>(arr, j, n). nat (n - j))") auto

declare shift_left.simps [simp del]

text \<open>\<^verbatim>\<open>confirm[0] == 'y' || confirm[0] == 'Y'\<close> on the answer read into a 10-byte buffer.\<close>

definition confirmed :: "string \<Rightarrow> bool" where
  "confirmed answer =
     (let c = peek (getLine 10 answer) in c = of_char (CHR ''y'') \<or> c = of_char (CHR ''Y''))"

definition deletePatient :: "state \<Rightarrow> int \<Rightarrow> string \<Rightarrow> result \<times> state" where
  "deletePatient st ident answer =
     (if ident \<le> 0 then (InvalidId, st)
      else
        let i = findPatientIndex st ident
        in if i \<noteq> - 1 then
             (if confirmed answer then
                (Removed, st\<lparr>patients := shift_left (patients st) i (patientCount st),
                             patientCount := patientCount st - 1\<rparr>)
              else (NotConfirmed, st))
           else (NotFound, st))"

definition comparePatientsByName :: "bool \<Rightarrow> Patient \<Rightarrow> Patient \<Rightarrow> int" where
  "comparePatientsByName sg pA pB = stricmp_custom sg (p_name pA) (p_name pB)"

text \<open>
  \<^verbatim>\<open>qsort\<close> belongs to the C library, not to the program: it is a parameter,
  a function from the comparison and the elements to the elements in their new
  order, which \<open>store\<close> writes back to the front of the array.
\<close>

type_synonym qsort_fn = "(Patient \<Rightarrow> Patient \<Rightarrow> int) \<Rightarrow> Patient list \<Rightarrow> Patient list"

definition store :: "(nat \<Rightarrow> 'a) \<Rightarrow> 'a list \<Rightarrow> (nat \<Rightarrow> 'a)" where
  "store arr xs = (\<lambda>i. if i < length xs then xs ! i else arr i)"

definition sortPatientsByName :: "bool \<Rightarrow> qsort_fn \<Rightarrow> state \<Rightarrow> result \<times> state" where
  "sortPatientsByName sg qsort st =
     (if patientCount st < 2 then (NotEnoughToSort, st)
      else (Sorted,
            st\<lparr>patients :=
                 store (patients st) (qsort (comparePatientsByName sg) (live_patients st))\<rparr>))"

text \<open>
  The search prints one line per match, in table order; the model returns the
  matching records, and the state, which the function never writes.
\<close>

definition searchPatientByName :: "bool \<Rightarrow> state \<Rightarrow> string \<Rightarrow> Patient list \<times> state" where
  "searchPatientByName sg st name_in =
     (let name = getLine 100 name_in
      in (filter (\<lambda>p. stricmp_custom sg (p_name p) name = 0) (live_patients st), st))"

section \<open>Appointments\<close>

definition addAppointment :: "state \<Rightarrow> int \<Rightarrow> int \<Rightarrow> string \<Rightarrow> string \<Rightarrow> result \<times> state" where
  "addAppointment st pid did date_in time_in =
     (if appointmentCount st \<ge> MAX_APPOINTS then (CapacityExceeded, st)
      else if patientCount st = 0 \<or> doctorCount st = 0 then (NeedPatientAndDoctor, st)
      else
        let pi = findPatientIndex st pid;
            di = findDoctorIndex st did
        in if pi = - 1 \<or> di = - 1 then (InvalidReference, st)
           else
             let a = \<lparr>a_id = nextAppointmentId st, a_patientId = pid, a_doctorId = did,
                      a_date = getLine 20 date_in, a_time = getLine 10 time_in\<rparr>;
                 st1 = st\<lparr>nextAppointmentId := int_incr (nextAppointmentId st),
                          appointments := (appointments st)(nat (appointmentCount st) := a),
                          appointmentCount := appointmentCount st + 1\<rparr>;
                 st2 = (if p_doctorId (patients st1 (nat pi)) = 0
                        then st1\<lparr>patients :=
                                 (patients st1)(nat pi := (patients st1 (nat pi))\<lparr>p_doctorId := did\<rparr>)\<rparr>
                        else st1)
             in (AppointmentScheduled (a_id a), st2))"

text \<open>
  One row of the appointment listing: the appointment id, the patient's name and
  id, the doctor's name and id, the date and the time. A name is copied into a
  100-byte buffer that starts as \<^verbatim>\<open>"Unknown"\<close>.
\<close>

type_synonym appointment_row = "int \<times> string \<times> int \<times> string \<times> int \<times> string \<times> string"

definition appointment_row_of :: "state \<Rightarrow> Appointment \<Rightarrow> appointment_row" where
  "appointment_row_of st a =
     (let pid = a_patientId a; did = a_doctorId a;
          pi = findPatientIndex st pid; di = findDoctorIndex st did;
          pname = (if pi \<noteq> - 1 then strncpy_field 100 (p_name (patients st (nat pi)))
                   else ''Unknown'');
          dname = (if di \<noteq> - 1 then strncpy_field 100 (d_name (doctors st (nat di)))
                   else ''Unknown'')
      in (a_id a, pname, pid, dname, did, a_date a, a_time a))"

definition displayAppointments :: "state \<Rightarrow> appointment_row list \<times> state" where
  "displayAppointments st =
     (if appointmentCount st = 0 then ([], st)
      else (map (appointment_row_of st) (live_appointments st), st))"

definition cancelAppointment :: "state \<Rightarrow> int \<Rightarrow> string \<Rightarrow> result \<times> state" where
  "cancelAppointment st ident answer =
     (if ident \<le> 0 then (InvalidId, st)
      else
        let i = findAppointmentIndex st ident
        in if i \<noteq> - 1 then
             (if confirmed answer then
                (Removed, st\<lparr>appointments := shift_left (appointments st) i (appointmentCount st),
                             appointmentCount := appointmentCount st - 1\<rparr>)
              else (NotConfirmed, st))
           else (NotFound, st))"

section \<open>Persistence\<close>

text \<open>
  The save file is a sequence of bytes. \<^verbatim>\<open>fwrite\<close> and \<^verbatim>\<open>fread\<close> copy the object
  representation of an \<^verbatim>\<open>int\<close> or of a record. The layout is the one of gcc on
  x86-64: an \<^verbatim>\<open>int\<close> is four bytes, least significant first, in two's complement; a
  record is its fields in order, each \<^verbatim>\<open>int\<close> at a multiple of four. A character
  buffer holds its C string, then NUL up to its size; the bytes after the terminator and
  the padding bytes are never looked at by the program and are written as NUL here.
  Once the file is open every write succeeds.
\<close>

definition int_bytes :: "int \<Rightarrow> string" where
  "int_bytes x =
     [char_of x, char_of (x div 256), char_of (x div 65536), char_of (x div 16777216)]"

definition bytes_int :: "string \<Rightarrow> int" where
  "bytes_int bs =
     (let u = of_char (bs ! 0) + 256 * of_char (bs ! 1) + 65536 * of_char (bs ! 2)
              + 16777216 * of_char (bs ! 3)
      in if 2147483648 \<le> u then u - 4294967296 else u)"

definition buffer :: "nat \<Rightarrow> string \<Rightarrow> string" where
  "buffer n s = take n (cstr s @ replicate n NUL)"

definition sizeof_Patient :: nat where "sizeof_Patient = 244"
definition sizeof_Disease :: nat where "sizeof_Disease = 504"
definition sizeof_Doctor :: nat where "sizeof_Doctor = 224"
definition sizeof_Appointment :: nat where "sizeof_Appointment = 44"

definition Patient_bytes :: "Patient \<Rightarrow> string" where
  "Patient_bytes p =
     int_bytes (p_id p) @ buffer 100 (p_name p) @ int_bytes (p_age p) @ buffer 10 (p_gender p) @
     buffer 20 (p_phone p) @ buffer 100 (p_disease p) @ replicate 2 NUL @ int_bytes (p_doctorId p)"

definition bytes_Patient :: "string \<Rightarrow> Patient" where
  "bytes_Patient bs =
     \<lparr>p_id = bytes_int (take 4 bs),
      p_name = cstr (take 100 (drop 4 bs)),
      p_age = bytes_int (take 4 (drop 104 bs)),
      p_gender = cstr (take 10 (drop 108 bs)),
      p_phone = cstr (take 20 (drop 118 bs)),
      p_disease = cstr (take 100 (drop 138 bs)),
      p_doctorId = bytes_int (take 4 (drop 240 bs))\<rparr>"

definition Disease_bytes :: "Disease \<Rightarrow> string" where
  "Disease_bytes d =
     int_bytes (ds_id d) @ buffer 100 (ds_name d) @ buffer 200 (ds_symptoms d) @
     buffer 200 (ds_treatment d)"

definition bytes_Disease :: "string \<Rightarrow> Disease" where
  "bytes_Disease bs =
     \<lparr>ds_id = bytes_int (take 4 bs),
      ds_name = cstr (take 100 (drop 4 bs)),
      ds_symptoms = cstr (take 200 (drop 104 bs)),
      ds_treatment = cstr (take 200 (drop 304 bs))\<rparr>"

definition Doctor_bytes :: "Doctor \<Rightarrow> string" where
  "Doctor_bytes d =
     int_bytes (d_id d) @ buffer 100 (d_name d) @ buffer 100 (d_specialization d) @
     buffer 20 (d_phone d)"

definition bytes_Doctor :: "string \<Rightarrow> Doctor" where
  "bytes_Doctor bs =
     \<lparr>d_id = bytes_int (take 4 bs),
      d_name = cstr (take 100 (drop 4 bs)),
      d_specialization = cstr (take 100 (drop 104 bs)),
      d_phone = cstr (take 20 (drop 204 bs))\<rparr>"

definition Appointment_bytes :: "Appointment \<Rightarrow> string" where
  "Appointment_bytes a =
     int_bytes (a_id a) @ int_bytes (a_patientId a) @ int_bytes (a_doctorId a) @
     buffer 20 (a_date a) @ buffer 10 (a_time a) @ replicate 2 NUL"

definition bytes_Appointment :: "string \<Rightarrow> Appointment" where
  "bytes_Appointment bs =
     \<lparr>a_id = bytes_int (take 4 bs),
      a_patientId = bytes_int (take 4 (drop 4 bs)),
      a_doctorId = bytes_int (take 4 (drop 8 bs)),
      a_date = cstr (take 20 (drop 12 bs)),
      a_time = cstr (take 10 (drop 32 bs))\<rparr>"

text \<open>
  \<^verbatim>\<open>fread(&x, sizeof(int), 1, fp)\<close> on the rest of the file: the value read and the
  rest after it. When fewer than four bytes are left nothing is stored (C leaves the
  value indeterminate) and the file is at its end.
\<close>

definition fread_int :: "int \<Rightarrow> string \<Rightarrow> int \<times> string" where
  "fread_int old bs = (if length bs < 4 then (old, []) else (bytes_int (take 4 bs), drop 4 bs))"

text \<open>\<^verbatim>\<open>fread\<close> of up to \<open>n\<close> items of \<open>sz\<close> bytes: the complete items that the file has.\<close>

fun fread_items :: "(string \<Rightarrow> 'a) \<Rightarrow> nat \<Rightarrow> nat \<Rightarrow> string \<Rightarrow> 'a list \<times> string" where
  "fread_items dec sz 0 bs = ([], bs)"
| "fread_items dec sz (Suc n) bs =
     (if length bs < sz then ([], [])
      else (let (xs, r) = fread_items dec sz n (drop sz bs) in (dec (take sz bs) # xs, r)))"

text \<open>\<^verbatim>\<open>if (count > 0) fwrite(table, sizeof(T), count, fp);\<close>\<close>

definition fwrite_table :: "('a \<Rightarrow> string) \<Rightarrow> (nat \<Rightarrow> 'a) \<Rightarrow> int \<Rightarrow> string" where
  "fwrite_table enc table n = (if n > 0 then concat (map enc (live table n)) else [])"

text \<open>\<^verbatim>\<open>if (count > 0) fread(table, sizeof(T), count, fp);\<close>\<close>

definition fread_table ::
  "(string \<Rightarrow> 'a) \<Rightarrow> nat \<Rightarrow> (nat \<Rightarrow> 'a) \<Rightarrow> int \<Rightarrow> string \<Rightarrow> (nat \<Rightarrow> 'a) \<times> string" where
  "fread_table dec sz table n bs =
     (if n > 0 then (let (xs, r) = fread_items dec sz (nat n) bs in (store table xs, r))
      else (table, bs))"

text \<open>What \<^verbatim>\<open>saveData\<close> writes, in its order.\<close>

definition file_contents :: "state \<Rightarrow> string" where
  "file_contents st =
     int_bytes (patientCount st) @ int_bytes (diseaseCount st) @
     int_bytes (doctorCount st) @ int_bytes (appointmentCount st) @
     int_bytes (nextPatientId st) @ int_bytes (nextDiseaseId st) @
     int_bytes (nextDoctorId st) @ int_bytes (nextAppointmentId st) @
     fwrite_table Patient_bytes (patients st) (patientCount st) @
     fwrite_table Disease_bytes (diseases st) (diseaseCount st) @
     fwrite_table Doctor_bytes (doctors st) (doctorCount st) @
     fwrite_table Appointment_bytes (appointments st) (appointmentCount st)"

text \<open>
  The file system holds the save file or not (\<open>None\<close>). \<open>can_open\<close> says whether
  \<^verbatim>\<open>fopen\<close> for writing succeeds; when it does the file is replaced.
\<close>

definition saveData :: "bool \<Rightarrow> state \<Rightarrow> string option \<Rightarrow> result \<times> string option" where
  "saveData can_open st file =
     (if \<not> can_open then (IOFailure, file) else (Saved, Some (file_contents st)))"

definition loadData :: "string option \<Rightarrow> state \<Rightarrow> state" where
  "loadData file st =
     (case file of
        None \<Rightarrow> st
      | Some bs0 \<Rightarrow>
          let (pc, bs1) = fread_int (patientCount st) bs0;
              (dc, bs2) = fread_int (diseaseCount st) bs1;
              (oc, bs3) = fread_int (doctorCount st) bs2;
              (ac, bs4) = fread_int (appointmentCount st) bs3;
              (np, bs5) = fread_int (nextPatientId st) bs4;
              (nd, bs6) = fread_int (nextDiseaseId st) bs5;
              (no, bs7) = fread_int (nextDoctorId st) bs6;
              (na, bs8) = fread_int (nextAppointmentId st) bs7;
              (ps, bs9) = fread_table bytes_Patient sizeof_Patient (patients st) pc bs8;
              (ds, bs10) = fread_table bytes_Disease sizeof_Disease (diseases st) dc bs9;
              (os, bs11) = fread_table bytes_Doctor sizeof_Doctor (doctors st) oc bs10;
              (as, bs12) = fread_table bytes_Appointment sizeof_Appointment (appointments st) ac bs11
          in \<lparr>patients = ps, diseases = ds, doctors = os, appointments = as,
              patientCount = pc, diseaseCount = dc, doctorCount = oc, appointmentCount = ac,
              nextPatientId = np, nextDiseaseId = nd, nextDoctorId = no,
              nextAppointmentId = na\<rparr>)"

section \<open>The menu loop\<close>

text \<open>
  The menu entries that write to the tables or the counters, each with the input
  it reads. The other entries (the views, the searches and the save) leave all
  twelve globals as they are.
\<close>

datatype op =
    OpAddPatient string int string string string int
  | OpDeletePatient int string
  | OpSortPatientsByName
  | OpAddDoctor string string string
  | OpAddDisease string string string
  | OpAddAppointment int int string string
  | OpCancelAppointment int string

fun exec :: "bool \<Rightarrow> qsort_fn \<Rightarrow> state \<Rightarrow> op \<Rightarrow> result \<times> state" where
  "exec sg qsort st (OpAddPatient n a g ph ds doc) = addPatient st n a g ph ds doc"
| "exec sg qsort st (OpDeletePatient i c) = deletePatient st i c"
| "exec sg qsort st OpSortPatientsByName = sortPatientsByName sg qsort st"
| "exec sg qsort st (OpAddDoctor n s ph) = addDoctor st n s ph"
| "exec sg qsort st (OpAddDisease n s t) = addDisease st n s t"
| "exec sg qsort st (OpAddAppointment p d dt tm) = addAppointment st p d dt tm"
| "exec sg qsort st (OpCancelAppointment i c) = cancelAppointment st i c"

text \<open>A session: the reports of the operations, in order, and the final state.\<close>

fun run :: "bool \<Rightarrow> qsort_fn \<Rightarrow> state \<Rightarrow> op list \<Rightarrow> result list \<times> state" where
  "run sg qsort st [] = ([], st)"
| "run sg qsort st (x # xs) =
     (let (r, st1) = exec sg qsort st x;
          (rs, st2) = run sg qsort st1 xs
      in (r # rs, st2))"

section \<open>Names without their case, and the contract of \<^verbatim>\<open>qsort\<close>\<close>

text \<open>
  The spec's case-insensitive comparison, in its own words: two names are equal when
  they are equal after every ASCII capital letter is replaced by its small letter.
\<close>

definition ascii_fold :: "char \<Rightarrow> char" where
  "ascii_fold c =
     (if CHR ''A'' \<le> c \<and> c \<le> CHR ''Z'' then char_of (of_char c + (32 :: nat)) else c)"

definition equal_ignoring_case :: "string \<Rightarrow> string \<Rightarrow> bool" where
  "equal_ignoring_case a b \<longleftrightarrow> map ascii_fold (cstr a) = map ascii_fold (cstr b)"

text \<open>
  The sort key of a name: its folded characters as \<^verbatim>\<open>char\<close> values. Keys are compared
  in the lexicographic order of lists, where a proper prefix comes first.
\<close>

definition name_key :: "bool \<Rightarrow> string \<Rightarrow> int list" where
  "name_key sg s = map (\<lambda>c. to_char sg (of_char (ascii_fold c))) (cstr s)"

text \<open>
  Modelled from the C standard (7.22.5.2), since \<^verbatim>\<open>qsort\<close> is the C library's: a
  comparison is consistent on the elements when its sign is that of a total preorder;
  for a consistent comparison \<^verbatim>\<open>qsort\<close> returns the elements rearranged so that the
  comparison of an earlier with a later one is never positive. Nothing is said about
  the order of elements that compare equal.
\<close>

definition cmp_consistent :: "('a \<Rightarrow> 'a \<Rightarrow> int) \<Rightarrow> 'a set \<Rightarrow> bool" where
  "cmp_consistent cmp A \<longleftrightarrow>
     (\<forall>a\<in>A. \<forall>b\<in>A. (cmp a b < 0 \<longleftrightarrow> 0 < cmp b a) \<and> (cmp a b = 0 \<longleftrightarrow> cmp b a = 0)) \<and>
     (\<forall>a\<in>A. \<forall>b\<in>A. \<forall>c\<in>A. cmp a b \<le> 0 \<and> cmp b c \<le> 0 \<longrightarrow> cmp a c \<le> 0)"

definition qsort_contract :: "qsort_fn \<Rightarrow> bool" where
  "qsort_contract qsort \<longleftrightarrow>
     (\<forall>cmp xs. cmp_consistent cmp (set xs) \<longrightarrow>
        mset (qsort cmp xs) = mset xs \<and> sorted_wrt (\<lambda>a b. cmp a b \<le> 0) (qsort cmp xs))"

section \<open>Sessions and the states they reach\<close>

text \<open>\<^verbatim>\<open>get_int_from_user\<close> only returns a value between \<^verbatim>\<open>INT_MIN\<close> and \<^verbatim>\<open>INT_MAX\<close>.\<close>

definition valid_int :: "int \<Rightarrow> bool" where
  "valid_int x \<longleftrightarrow> INT_MIN \<le> x \<and> x \<le> INT_MAX"

fun valid_op :: "op \<Rightarrow> bool" where
  "valid_op (OpAddPatient n a g ph ds doc) = (valid_int a \<and> valid_int doc)"
| "valid_op (OpDeletePatient i c) = valid_int i"
| "valid_op OpSortPatientsByName = True"
| "valid_op (OpAddDoctor n s ph) = True"
| "valid_op (OpAddDisease n s t) = True"
| "valid_op (OpAddAppointment p d dt tm) = (valid_int p \<and> valid_int d)"
| "valid_op (OpCancelAppointment i c) = valid_int i"

text \<open>
  The program starts from the zeroed globals and loads the save file, if there is one.
  A state is reachable when a chain of sessions leads to it: the first starts without a
  save file, every session runs menu operations, and a later session starts from the
  file that an earlier one saved.
\<close>

inductive reachable :: "bool \<Rightarrow> qsort_fn \<Rightarrow> state \<Rightarrow> bool" for sg :: bool and qsort :: qsort_fn where
  start: "reachable sg qsort (loadData None initial_state)"
| step: "reachable sg qsort st \<Longrightarrow> valid_op x \<Longrightarrow> reachable sg qsort (snd (exec sg qsort st x))"
| restart: "reachable sg qsort st \<Longrightarrow>
            reachable sg qsort (loadData (snd (saveData True st file)) initial_state)"

text \<open>What every reachable state satisfies: the values fit their C types.\<close>

definition fits :: "nat \<Rightarrow> string \<Rightarrow> bool" where
  "fits n s \<longleftrightarrow> length s < n \<and> NUL \<notin> set s"

definition wf_Patient :: "Patient \<Rightarrow> bool" where
  "wf_Patient p \<longleftrightarrow>
     valid_int (p_id p) \<and> fits 100 (p_name p) \<and> valid_int (p_age p) \<and> fits 10 (p_gender p) \<and>
     fits 20 (p_phone p) \<and> fits 100 (p_disease p) \<and> valid_int (p_doctorId p)"

definition wf_Disease :: "Disease \<Rightarrow> bool" where
  "wf_Disease d \<longleftrightarrow>
     valid_int (ds_id d) \<and> fits 100 (ds_name d) \<and> fits 200 (ds_symptoms d) \<and>
     fits 200 (ds_treatment d)"

definition wf_Doctor :: "Doctor \<Rightarrow> bool" where
  "wf_Doctor d \<longleftrightarrow>
     valid_int (d_id d) \<and> fits 100 (d_name d) \<and> fits 100 (d_specialization d) \<and>
     fits 20 (d_phone d)"

definition wf_Appointment :: "Appointment \<Rightarrow> bool" where
  "wf_Appointment a \<longleftrightarrow>
     valid_int (a_id a) \<and> valid_int (a_patientId a) \<and> valid_int (a_doctorId a) \<and>
     fits 20 (a_date a) \<and> fits 10 (a_time a)"

definition wf_state :: "state \<Rightarrow> bool" where
  "wf_state st \<longleftrightarrow>
     0 \<le> patientCount st \<and> patientCount st \<le> MAX_PATIENTS \<and>
     0 \<le> diseaseCount st \<and> diseaseCount st \<le> MAX_DISEASES \<and>
     0 \<le> doctorCount st \<and> doctorCount st \<le> MAX_DOCTORS \<and>
     0 \<le> appointmentCount st \<and> appointmentCount st \<le> MAX_APPOINTS \<and>
     valid_int (nextPatientId st) \<and> valid_int (nextDiseaseId st) \<and>
     valid_int (nextDoctorId st) \<and> valid_int (nextAppointmentId st) \<and>
     list_all wf_Patient (live_patients st) \<and> list_all wf_Disease (live_diseases st) \<and>
     list_all wf_Doctor (live_doctors st) \<and> list_all wf_Appointment (live_appointments st)"

text \<open>Two states with the same counts, the same next ids and the same live records.\<close>

definition same_database :: "state \<Rightarrow> state \<Rightarrow> bool" where
  "same_database s t \<longleftrightarrow>
     patientCount s = patientCount t \<and> diseaseCount s = diseaseCount t \<and>
     doctorCount s = doctorCount t \<and> appointmentCount s = appointmentCount t \<and>
     nextPatientId s = nextPatientId t \<and> nextDiseaseId s = nextDiseaseId t \<and>
     nextDoctorId s = nextDoctorId t \<and> nextAppointmentId s = nextAppointmentId t \<and>
     live_patients s = live_patients t \<and> live_diseases s = live_diseases t \<and>
     live_doctors s = live_doctors t \<and> live_appointments s = live_appointments t"

section \<open>Identifier assignment, per table\<close>

datatype entity = PatientTable | DiseaseTable | DoctorTable | AppointmentTable

fun next_id :: "entity \<Rightarrow> state \<Rightarrow> int" where
  "next_id PatientTable st = nextPatientId st"
| "next_id DiseaseTable st = nextDiseaseId st"
| "next_id DoctorTable st = nextDoctorId st"
| "next_id AppointmentTable st = nextAppointmentId st"

text \<open>The id a report announces for a table, when the report is a successful add to it.\<close>

fun added :: "entity \<Rightarrow> result \<Rightarrow> int option" where
  "added PatientTable (PatientAdded i) = Some i"
| "added DiseaseTable (DiseaseAdded i) = Some i"
| "added DoctorTable (DoctorAdded i) = Some i"
| "added AppointmentTable (AppointmentScheduled i) = Some i"
| "added e r = None"

definition assigned_ids :: "entity \<Rightarrow> result list \<Rightarrow> int list" where
  "assigned_ids e rs = List.map_filter (added e) rs"

section \<open>Concrete inputs\<close>

text \<open>An insertion sort that calls the comparison as \<^verbatim>\<open>qsort\<close> does: one possible \<^verbatim>\<open>qsort\<close>.\<close>

fun insert_by :: "('a \<Rightarrow> 'a \<Rightarrow> int) \<Rightarrow> 'a \<Rightarrow> 'a list \<Rightarrow> 'a list" where
  "insert_by cmp x [] = [x]"
| "insert_by cmp x (y # ys) = (if cmp x y \<le> 0 then x # y # ys else y # insert_by cmp x ys)"

definition insertion_qsort :: qsort_fn where
  "insertion_qsort cmp xs = foldr (insert_by cmp) xs []"

text \<open>
  A short session: one doctor and three patients, the first without a doctor, the
  second with doctor 1, the third asking for a doctor 7 that does not exist.
\<close>

definition demo_ops :: "op list" where
  "demo_ops =
     [OpAddDoctor ''Dr. Smith'' ''Cardiology'' ''555-0100'',
      OpAddPatient ''Bob'' 41 ''M'' ''555-0101'' ''flu'' 0,
      OpAddPatient ''alice'' 29 ''F'' ''555-0102'' ''asthma'' 1,
      OpAddPatient ''Charlie'' 35 ''M'' ''555-0103'' ''cold'' 7]"

definition demo_state :: state where
  "demo_state = snd (run True insertion_qsort initial_state demo_ops)"

text \<open>The same session after an appointment of patient 1 with doctor 1.\<close>

definition scheduled_state :: state where
  "scheduled_state = snd (addAppointment demo_state 1 1 ''2025-01-15'' ''09:30'')"

text \<open>Five patients whose names differ from \<^verbatim>\<open>john\<close> by case, by length or not at all.\<close>

definition johns_state :: state where
  "johns_state = snd (run True insertion_qsort initial_state
     [OpAddPatient ''John'' 50 ''M'' ''555-0201'' ''flu'' 0,
      OpAddPatient ''Johnny'' 51 ''M'' ''555-0202'' ''flu'' 0,
      OpAddPatient ''JOHN'' 52 ''M'' ''555-0203'' ''flu'' 0,
      OpAddPatient ''john'' 53 ''M'' ''555-0204'' ''flu'' 0,
      OpAddPatient ''Joh'' 54 ''M'' ''555-0205'' ''flu'' 0])"

text \<open>
  All four tables at their bounds: the state after 100 doctors, 500 patients and 200
  diseases entered with empty lines, and then 1000 appointments of patient 1 with
  doctor 1, the first of which makes doctor 1 the primary doctor of patient 1.
\<close>

definition full_ops :: "op list" where
  "full_ops =
     replicate 100 (OpAddDoctor [] [] []) @ replicate 500 (OpAddPatient [] 0 [] [] [] 0) @
     replicate 200 (OpAddDisease [] [] []) @ replicate 1000 (OpAddAppointment 1 1 [] [])"

definition full_state :: state where
  "full_state =
     \<lparr>patients = (\<lambda>i. if i < 500
                       then zero_Patient\<lparr>p_id := int i + 1, p_doctorId := (if i = 0 then 1 else 0)\<rparr>
                       else zero_Patient),
      diseases = (\<lambda>i. if i < 200 then zero_Disease\<lparr>ds_id := int i + 1\<rparr> else zero_Disease),
      doctors = (\<lambda>i. if i < 100 then zero_Doctor\<lparr>d_id := int i + 1\<rparr> else zero_Doctor),
      appointments = (\<lambda>i. if i < 1000
                           then zero_Appointment\<lparr>a_id := int i + 1, a_patientId := 1, a_doctorId := 1\<rparr>
                           else zero_Appointment),
      patientCount = 500, diseaseCount = 200, doctorCount = 100, appointmentCount = 1000,
      nextPatientId = 501, nextDiseaseId = 201, nextDoctorId = 101, nextAppointmentId = 1001\<rparr>"

section \<open>Facts about the loops\<close>

lemma find_index_from_result:
  "0 \<le> i \<Longrightarrow> find_index_from ids n x i = r \<Longrightarrow>
     (r = - 1 \<and> (\<forall>k. i \<le> k \<and> k < n \<longrightarrow> ids (nat k) \<noteq> x)) \<or>
     (i \<le> r \<and> r < n \<and> ids (nat r) = x \<and> (\<forall>k. i \<le> k \<and> k < r \<longrightarrow> ids (nat k) \<noteq> x))"
proof (induction ids n x i arbitrary: r rule: find_index_from.induct)
  case (1 ids n x i)
  show ?case
  proof (cases "i < n")
    case False
    with "1.prems" show ?thesis by (simp add: find_index_from.simps[of ids n x i])
  next
    case True
    show ?thesis
    proof (cases "ids (nat i) = x")
      case True
      with \<open>i < n\<close> "1.prems" show ?thesis by (simp add: find_index_from.simps[of ids n x i])
    next
      case False
      with \<open>i < n\<close> "1.prems" have r: "find_index_from ids n x (i + 1) = r"
        by (simp add: find_index_from.simps[of ids n x i])
      from "1.prems" have "0 \<le> i + 1" by simp
      from "1.IH"[OF \<open>i < n\<close> False this r]
      show ?thesis
      proof
        assume a: "r = - 1 \<and> (\<forall>k. i + 1 \<le> k \<and> k < n \<longrightarrow> ids (nat k) \<noteq> x)"
        have "\<forall>k. i \<le> k \<and> k < n \<longrightarrow> ids (nat k) \<noteq> x"
        proof (intro allI impI)
          fix k assume "i \<le> k \<and> k < n"
          then have "k = i \<or> (i + 1 \<le> k \<and> k < n)" by auto
          with a False show "ids (nat k) \<noteq> x" by auto
        qed
        with a show ?thesis by simp
      next
        assume a: "i + 1 \<le> r \<and> r < n \<and> ids (nat r) = x \<and> (\<forall>k. i + 1 \<le> k \<and> k < r \<longrightarrow> ids (nat k) \<noteq> x)"
        have "\<forall>k. i \<le> k \<and> k < r \<longrightarrow> ids (nat k) \<noteq> x"
        proof (intro allI impI)
          fix k assume "i \<le> k \<and> k < r"
          then have "k = i \<or> (i + 1 \<le> k \<and> k < r)" by auto
          with a False show "ids (nat k) \<noteq> x" by auto
        qed
        with a show ?thesis by simp
      qed
    qed
  qed
qed

lemma shift_left_apply:
  "0 \<le> j \<Longrightarrow> shift_left arr j n k = (if j \<le> int k \<and> int k < n - 1 then arr (Suc k) else arr k)"
proof (induction arr j n arbitrary: k rule: shift_left.induct)
  case (1 arr j n)
  show ?case
  proof (cases "j < n - 1")
    case False
    then have "shift_left arr j n = arr" by (simp add: shift_left.simps[of arr j n])
    with False show ?thesis by auto
  next
    case True
    define arr1 where "arr1 = arr(nat j := arr (nat (j + 1)))"
    from "1.prems" have "0 \<le> j + 1" by simp
    from "1.IH"[OF True this, of k]
    have IH: "shift_left arr1 (j + 1) n k =
        (if j + 1 \<le> int k \<and> int k < n - 1 then arr1 (Suc k) else arr1 k)"
      by (simp only: arr1_def)
    have s: "nat (j + 1) = Suc (nat j)" using "1.prems" by simp
    from True have u: "shift_left arr j n k = shift_left arr1 (j + 1) n k"
      by (simp add: shift_left.simps[of arr j n] arr1_def)
    have a1: "arr1 (Suc k) = arr (Suc k)" if "j \<le> int k"
      using that "1.prems" by (simp add: arr1_def nat_eq_iff)
    have a2: "arr1 k = (if int k = j then arr (Suc k) else arr k)"
      using "1.prems" by (auto simp: arr1_def s nat_eq_iff)
    show ?thesis
      unfolding u IH using True a1 a2 by auto
  qed
qed

lemma live_shift_left:
  assumes "0 \<le> i" "i < n"
  shows "live (shift_left arr i n) (n - 1) = take (nat i) (live arr n) @ drop (Suc (nat i)) (live arr n)"
proof (rule nth_equalityI)
  show "length (live (shift_left arr i n) (n - 1)) = length (take (nat i) (live arr n) @ drop (Suc (nat i)) (live arr n))"
    using assms by (simp add: live_def)
next
  fix k assume "k < length (live (shift_left arr i n) (n - 1))"
  then have k: "int k < n - 1" by (simp add: live_def)
  show "live (shift_left arr i n) (n - 1) ! k = (take (nat i) (live arr n) @ drop (Suc (nat i)) (live arr n)) ! k"
    using assms k by (auto simp: live_def shift_left_apply nth_append)
qed


lemma length_live [simp]: "length (live arr n) = nat n"
  by (simp add: live_def)

lemma nth_live [simp]: "k < nat n \<Longrightarrow> live arr n ! k = arr k"
  by (simp add: live_def)

lemma set_live: "set (live arr n) = arr ` {k. k < nat n}"
  by (auto simp: live_def)

lemma find_none_iff:
  "find_index_from (\<lambda>i. f (arr i)) n x 0 = - 1 \<longleftrightarrow> x \<notin> f ` set (live arr n)"
proof -
  from find_index_from_result[of 0 "\<lambda>i. f (arr i)" n x, OF _ refl]
  consider (none) "find_index_from (\<lambda>i. f (arr i)) n x 0 = - 1"
      "\<forall>k. 0 \<le> k \<and> k < n \<longrightarrow> f (arr (nat k)) \<noteq> x"
    | (found) "0 \<le> find_index_from (\<lambda>i. f (arr i)) n x 0"
      "find_index_from (\<lambda>i. f (arr i)) n x 0 < n"
      "f (arr (nat (find_index_from (\<lambda>i. f (arr i)) n x 0))) = x"
    by auto
  then show ?thesis
  proof cases
    case none
    have "x \<notin> f ` set (live arr n)"
    proof
      assume "x \<in> f ` set (live arr n)"
      then obtain k where k: "k < nat n" "f (arr k) = x" by (auto simp: set_live)
      then have "0 \<le> int k \<and> int k < n" by auto
      with none(2) have "f (arr (nat (int k))) \<noteq> x" by blast
      with k show False by simp
    qed
    with none(1) show ?thesis by simp
  next
    case found
    let ?r = "find_index_from (\<lambda>i. f (arr i)) n x 0"
    from found have "nat ?r < nat n" by auto
    then have "arr (nat ?r) \<in> set (live arr n)" unfolding set_live by blast
    then have "f (arr (nat ?r)) \<in> f ` set (live arr n)" by (rule imageI)
    with found(3) have "x \<in> f ` set (live arr n)" by simp
    with found(1) show ?thesis by auto
  qed
qed

lemma find_some:
  assumes "find_index_from (\<lambda>i. f (arr i)) n x 0 \<noteq> - 1"
  shows "\<exists>i. find_index_from (\<lambda>i. f (arr i)) n x 0 = int i \<and> i < nat n \<and> f (arr i) = x \<and>
           (\<forall>k<i. f (arr k) \<noteq> x)"
proof -
  let ?r = "find_index_from (\<lambda>i. f (arr i)) n x 0"
  from find_index_from_result[of 0 "\<lambda>i. f (arr i)" n x, OF _ refl] assms
  have r: "0 \<le> ?r" "?r < n" "f (arr (nat ?r)) = x"
    "\<forall>k. 0 \<le> k \<and> k < ?r \<longrightarrow> f (arr (nat k)) \<noteq> x"
    by auto
  have "\<forall>k<nat ?r. f (arr k) \<noteq> x"
  proof (intro allI impI)
    fix k assume "k < nat ?r"
    then have "0 \<le> int k \<and> int k < ?r" by auto
    with r(4) have "f (arr (nat (int k))) \<noteq> x" by blast
    then show "f (arr k) \<noteq> x" by simp
  qed
  with r show ?thesis
    by (intro exI[of _ "nat ?r"]) auto
qed

lemma live_upd_append: "0 \<le> n \<Longrightarrow> live (arr(nat n := x)) (n + 1) = live arr n @ [x]"
  by (simp add: live_def nat_add_distrib)

lemma live_upd: "live (arr(k := x)) n = (live arr n)[k := x]"
  by (rule nth_equalityI) (auto simp: nth_list_update)

lemma live_upd_id: "(live arr n)[i := arr i] = live arr n"
  by (cases "i < nat n") (auto intro!: nth_equalityI simp: nth_list_update)

lemma findPatientIndex_none:
  "findPatientIndex st x = - 1 \<longleftrightarrow> x \<notin> p_id ` set (live_patients st)"
  unfolding findPatientIndex_def live_patients_def
  by (rule find_none_iff[of p_id "patients st" "patientCount st" x])

lemma findDoctorIndex_none:
  "findDoctorIndex st x = - 1 \<longleftrightarrow> x \<notin> d_id ` set (live_doctors st)"
  unfolding findDoctorIndex_def live_doctors_def
  by (rule find_none_iff[of d_id "doctors st" "doctorCount st" x])

lemma findAppointmentIndex_none:
  "findAppointmentIndex st x = - 1 \<longleftrightarrow> x \<notin> a_id ` set (live_appointments st)"
  unfolding findAppointmentIndex_def live_appointments_def
  by (rule find_none_iff[of a_id "appointments st" "appointmentCount st" x])

lemma findPatientIndex_some:
  assumes "x \<in> p_id ` set (live_patients st)"
  defines "i \<equiv> nat (findPatientIndex st x)"
  shows "findPatientIndex st x = int i" "i < length (live_patients st)"
    "live_patients st ! i = patients st i" "p_id (patients st i) = x"
    "\<forall>k<i. p_id (live_patients st ! k) \<noteq> x"
proof -
  from assms(1) have "findPatientIndex st x \<noteq> - 1" by (simp add: findPatientIndex_none)
  from find_some[of p_id "patients st" "patientCount st" x, OF this[unfolded findPatientIndex_def]]
  obtain j where j: "findPatientIndex st x = int j" "j < nat (patientCount st)"
    "p_id (patients st j) = x" "\<forall>k<j. p_id (patients st k) \<noteq> x"
    unfolding findPatientIndex_def by blast
  then have ij: "i = j" by (simp add: i_def)
  from j show "findPatientIndex st x = int i" "i < length (live_patients st)"
    "live_patients st ! i = patients st i" "p_id (patients st i) = x"
    "\<forall>k<i. p_id (live_patients st ! k) \<noteq> x"
    unfolding ij by (auto simp: live_patients_def)
qed

lemma findAppointmentIndex_some:
  assumes "x \<in> a_id ` set (live_appointments st)"
  defines "i \<equiv> nat (findAppointmentIndex st x)"
  shows "findAppointmentIndex st x = int i" "i < length (live_appointments st)"
    "live_appointments st ! i = appointments st i" "a_id (appointments st i) = x"
    "\<forall>k<i. a_id (live_appointments st ! k) \<noteq> x"
proof -
  from assms(1) have "findAppointmentIndex st x \<noteq> - 1" by (simp add: findAppointmentIndex_none)
  from find_some[of a_id "appointments st" "appointmentCount st" x, OF this[unfolded findAppointmentIndex_def]]
  obtain j where j: "findAppointmentIndex st x = int j" "j < nat (appointmentCount st)"
    "a_id (appointments st j) = x" "\<forall>k<j. a_id (appointments st k) \<noteq> x"
    unfolding findAppointmentIndex_def by blast
  then have ij: "i = j" by (simp add: i_def)
  from j show "findAppointmentIndex st x = int i" "i < length (live_appointments st)"
    "live_appointments st ! i = appointments st i" "a_id (appointments st i) = x"
    "\<forall>k<i. a_id (live_appointments st ! k) \<noteq> x"
    unfolding ij by (auto simp: live_appointments_def)
qed

lemma int_incr_plain: "INT_MIN \<le> x \<Longrightarrow> x < INT_MAX \<Longrightarrow> int_incr x = x + 1"
  by (simp add: int_incr_def INT_MIN_def INT_MAX_def)

lemma int_incr_range: "INT_MIN \<le> int_incr x \<and> int_incr x \<le> INT_MAX"
proof -
  have "0 \<le> (x + 1 + 2147483648) mod 4294967296" by simp
  moreover have "(x + 1 + 2147483648) mod 4294967296 < 4294967296" by simp
  ultimately show ?thesis unfolding int_incr_def INT_MIN_def INT_MAX_def by linarith
qed

lemma exec_next_id:
  "exec sg q st x = (r, st1) \<Longrightarrow>
     (case added e r of
        Some i \<Rightarrow> i = next_id e st \<and> next_id e st1 = int_incr (next_id e st)
      | None \<Rightarrow> next_id e st1 = next_id e st)"
  by (cases x; cases e)
    (auto simp: addPatient_def addDoctor_def addDisease_def addAppointment_def deletePatient_def
      cancelAppointment_def sortPatientsByName_def Let_def split: if_splits)

lemma assigned_ids_Cons:
  "assigned_ids e (r # rs) =
     (case added e r of Some i \<Rightarrow> i # assigned_ids e rs | None \<Rightarrow> assigned_ids e rs)"
  by (cases "added e r") (simp_all add: assigned_ids_def List.map_filter_simps)

lemma run_assigned_ids:
  "INT_MIN \<le> next_id e st \<Longrightarrow> next_id e st \<le> INT_MAX \<Longrightarrow>
   next_id e st + int (length (assigned_ids e (fst (run sg q st ops)))) \<le> INT_MAX + 1 \<Longrightarrow>
   assigned_ids e (fst (run sg q st ops)) =
     map (\<lambda>j. next_id e st + int j) [0..<length (assigned_ids e (fst (run sg q st ops)))]"
proof (induction ops arbitrary: st)
  case Nil
  then show ?case by (simp add: assigned_ids_def List.map_filter_simps)
next
  case (Cons x xs)
  obtain r st1 where ex: "exec sg q st x = (r, st1)" by (cases "exec sg q st x")
  obtain rs st2 where rn: "run sg q st1 xs = (rs, st2)" by (cases "run sg q st1 xs")
  have run_eq: "fst (run sg q st (x # xs)) = r # fst (run sg q st1 xs)" using ex rn by simp
  define rs' where "rs' = fst (run sg q st1 xs)"
  note step = exec_next_id[OF ex, of e]
  show ?case
  proof (cases "added e r")
    case None
    with step have same: "next_id e st1 = next_id e st" by simp
    have ids: "assigned_ids e (r # rs') = assigned_ids e rs'"
      using None by (simp add: assigned_ids_Cons)
    from Cons.prems(3) have "next_id e st1 + int (length (assigned_ids e rs')) \<le> INT_MAX + 1"
      unfolding run_eq rs'_def[symmetric] ids same .
    from Cons.IH[of st1, folded rs'_def, OF _ _ this] Cons.prems(1,2) show ?thesis
      unfolding run_eq rs'_def[symmetric] ids same by simp
  next
    case (Some i)
    with step have i: "i = next_id e st" and nx: "next_id e st1 = int_incr (next_id e st)" by simp_all
    have ids: "assigned_ids e (r # rs') = i # assigned_ids e rs'"
      using Some by (simp add: assigned_ids_Cons)
    let ?k = "length (assigned_ids e rs')"
    from Cons.prems(3) have bound: "next_id e st + int (Suc ?k) \<le> INT_MAX + 1"
      unfolding run_eq rs'_def[symmetric] ids by simp
    have lt: "next_id e st < INT_MAX" if "0 < ?k"
    proof -
      from that have "1 \<le> int ?k" by linarith
      with bound show ?thesis by simp
    qed
    have r1: "INT_MIN \<le> next_id e st1" "next_id e st1 \<le> INT_MAX"
      unfolding nx using int_incr_range by simp_all
    show ?thesis
    proof (cases "?k = 0")
      case True
      then show ?thesis unfolding run_eq rs'_def[symmetric] ids i by simp
    next
      case False
      then have "next_id e st < INT_MAX" using lt by simp
      with Cons.prems(1) have nx1: "next_id e st1 = next_id e st + 1"
        unfolding nx by (rule int_incr_plain)
      from bound have "next_id e st1 + int (length (assigned_ids e rs')) \<le> INT_MAX + 1"
        unfolding nx1 by simp
      from Cons.IH[of st1, folded rs'_def, OF r1 this]
      have "assigned_ids e rs' = map (\<lambda>j. next_id e st + 1 + int j) [0..<?k]"
        unfolding nx1 .
      also have "\<dots> = map (\<lambda>j. next_id e st + int j) (map Suc [0..<?k])"
        by simp
      also have "map Suc [0..<?k] = [1..<Suc ?k]"
        by (simp add: map_Suc_upt)
      finally have tl_eq: "assigned_ids e rs' = map (\<lambda>j. next_id e st + int j) [1..<Suc ?k]" .
      have "[0..<Suc ?k] = 0 # [1..<Suc ?k]" by (simp add: upt_rec)
      then show ?thesis
        unfolding run_eq rs'_def[symmetric] ids i length_Cons using tl_eq by simp
    qed
  qed
qed

section \<open>Facts about the comparison and the sort\<close>

lemma of_char_int_range: "0 \<le> (of_char c :: int) \<and> (of_char c :: int) < 256"
proof -
  have "0 \<le> (of_char c :: int) mod 256" by (rule pos_mod_sign) simp
  moreover have "(of_char c :: int) mod 256 < 256" by (rule pos_mod_bound) simp
  ultimately show ?thesis by (simp only: of_char_mod_256)
qed

lemma of_char_NUL: "(of_char c :: int) = 0 \<longleftrightarrow> c = NUL"
proof -
  have "(of_char NUL :: int) = 0" by (simp add: NUL_def)
  then show ?thesis by (metis of_char_eq_iff)
qed

lemma of_char_ascii_fold: "(of_char (ascii_fold c) :: int) = tolower (of_char c)"
proof -
  define n :: nat where "n = of_char c"
  have ci: "(of_char c :: int) = int n" by (simp add: n_def of_nat_of_char)
  have A: "CHR ''A'' \<le> c \<longleftrightarrow> 65 \<le> n" by (simp add: less_eq_char_def n_def)
  have Z: "c \<le> CHR ''Z'' \<longleftrightarrow> n \<le> 90" by (simp add: less_eq_char_def n_def)
  show ?thesis
  proof (cases "65 \<le> n \<and> n \<le> 90")
    case True
    then have "(of_char (char_of (n + 32)) :: nat) = n + 32" by simp
    then have "(of_char (char_of (n + 32)) :: int) = int n + 32"
      by (metis of_nat_of_char of_nat_add of_nat_numeral)
    with True A Z show ?thesis
      by (simp add: ascii_fold_def tolower_def ci n_def[symmetric])
  next
    case False
    with A Z show ?thesis by (auto simp: ascii_fold_def tolower_def ci)
  qed
qed

lemma name_key_alt: "name_key sg s = map (\<lambda>c. to_char sg (tolower (of_char c))) (cstr s)"
  by (simp add: name_key_def of_char_ascii_fold)

lemma tolower_zero: "0 \<le> v \<Longrightarrow> tolower v = 0 \<longleftrightarrow> v = 0"
  by (simp add: tolower_def)

lemma to_char_inj: "0 \<le> u \<Longrightarrow> u < 256 \<Longrightarrow> 0 \<le> v \<Longrightarrow> v < 256 \<Longrightarrow>
    to_char sg u = to_char sg v \<longleftrightarrow> u = v"
  by (auto simp: to_char_def)

lemma lower_range: "0 \<le> tolower (of_char c) \<and> tolower (of_char c) < 256"
  using of_char_int_range[of c] by (simp add: tolower_def)

lemma lower_zero: "tolower (of_char c) = 0 \<longleftrightarrow> c = NUL"
  using of_char_int_range[of c] by (simp add: tolower_zero of_char_NUL)

lemma key_char_inj:
  "to_char sg (of_char (ascii_fold x)) = to_char sg (of_char (ascii_fold y)) \<longleftrightarrow>
     ascii_fold x = ascii_fold y"
proof -
  have "to_char sg (of_char (ascii_fold x)) = to_char sg (of_char (ascii_fold y)) \<longleftrightarrow>
      (of_char (ascii_fold x) :: int) = of_char (ascii_fold y)"
    using of_char_int_range[of "ascii_fold x"] of_char_int_range[of "ascii_fold y"]
    by (simp add: to_char_inj)
  then show ?thesis by simp
qed

lemma map_key_eq:
  "map (\<lambda>c. to_char sg (of_char (ascii_fold c))) xs = map (\<lambda>c. to_char sg (of_char (ascii_fold c))) ys
     \<longleftrightarrow> map ascii_fold xs = map ascii_fold ys"
proof (induction xs arbitrary: ys)
  case Nil
  then show ?case by auto
next
  case (Cons x xs)
  show ?case
  proof (cases ys)
    case Nil
    then show ?thesis by simp
  next
    case (Cons y ys')
    with Cons.IH[of ys'] show ?thesis by (simp add: key_char_inj)
  qed
qed

lemma name_key_eq: "name_key sg a = name_key sg b \<longleftrightarrow> equal_ignoring_case a b"
  by (simp add: name_key_def equal_ignoring_case_def map_key_eq)

lemma cstr_Cons: "cstr (x # xs) = (if x = NUL then [] else x # cstr xs)"
  by (simp add: cstr_def)

lemma cstr_Nil: "cstr [] = []"
  by (simp add: cstr_def)

lemma cstr_cstr: "cstr (cstr s) = cstr s"
  by (induction s) (simp_all add: cstr_Cons cstr_Nil)

lemma stricmp_custom_sign:
  "(stricmp_custom sg a b < 0 \<longleftrightarrow> name_key sg a < name_key sg b) \<and>
   (stricmp_custom sg a b = 0 \<longleftrightarrow> name_key sg a = name_key sg b)"
proof (induction sg a b rule: stricmp_custom.induct)
  case (1 sg x xs y ys)
  show ?case
  proof (cases "x \<noteq> NUL \<and> y \<noteq> NUL")
    case True
    let ?ca = "to_char sg (tolower (of_char x))" and ?cb = "to_char sg (tolower (of_char y))"
    show ?thesis
    proof (cases "?ca = ?cb")
      case False
      with True show ?thesis
        by (auto simp: name_key_alt cstr_Cons Let_def)
    next
      case eq: True
      from "1.IH"[OF True refl refl] eq True show ?thesis
        by (simp add: name_key_alt cstr_Cons Let_def)
    qed
  next
    case False
    then consider (x) "x = NUL" | (y) "x \<noteq> NUL" "y = NUL" by blast
    then show ?thesis
    proof cases
      case x
      have "0 \<le> tolower (of_char y)" using lower_range[of y] by simp
      moreover have "tolower (of_char NUL) = 0" by (simp add: lower_zero)
      ultimately show ?thesis using x lower_zero[of y]
        by (auto simp: name_key_alt cstr_Cons)
    next
      case y
      have "0 \<le> tolower (of_char x)" using lower_range[of x] by simp
      moreover have "tolower (of_char NUL) = 0" by (simp add: lower_zero)
      ultimately show ?thesis using y lower_zero[of x]
        by (auto simp: name_key_alt cstr_Cons)
    qed
  qed
next
  case (2 sg b)
  show ?case
  proof (cases b)
    case Nil
    then show ?thesis by (simp add: name_key_alt cstr_Nil)
  next
    case (Cons y ys)
    have "0 \<le> tolower (of_char y)" using lower_range[of y] by simp
    then show ?thesis using Cons lower_zero[of y]
      by (auto simp: name_key_alt cstr_Cons cstr_Nil tolower_def)
  qed
next
  case (3 sg x xs)
  have "0 \<le> tolower (of_char x)" using lower_range[of x] by simp
  then show ?case using lower_zero[of x]
    by (auto simp: name_key_alt cstr_Cons cstr_Nil tolower_def)
qed

lemma stricmp_custom_zero: "stricmp_custom sg a b = 0 \<longleftrightarrow> equal_ignoring_case a b"
  using stricmp_custom_sign[of sg a b] by (simp add: name_key_eq)

lemma stricmp_custom_le: "stricmp_custom sg a b \<le> 0 \<longleftrightarrow> name_key sg a \<le> name_key sg b"
  using stricmp_custom_sign[of sg a b] by (auto simp: order.order_iff_strict)

lemma equal_ignoring_case_cstr: "equal_ignoring_case a (cstr b) \<longleftrightarrow> equal_ignoring_case a b"
  by (simp add: equal_ignoring_case_def cstr_cstr)

lemma live_store: "length xs = nat n \<Longrightarrow> live (store arr xs) n = xs"
  by (rule nth_equalityI) (simp_all add: store_def)

lemma comparePatientsByName_consistent: "cmp_consistent (comparePatientsByName sg) A"
proof -
  have lt: "comparePatientsByName sg a b < 0 \<longleftrightarrow> name_key sg (p_name a) < name_key sg (p_name b)"
    and eq: "comparePatientsByName sg a b = 0 \<longleftrightarrow> name_key sg (p_name a) = name_key sg (p_name b)"
    and le: "comparePatientsByName sg a b \<le> 0 \<longleftrightarrow> name_key sg (p_name a) \<le> name_key sg (p_name b)"
    for a b
    using stricmp_custom_sign[of sg "p_name a" "p_name b"]
      stricmp_custom_le[of sg "p_name a" "p_name b"]
    by (simp_all add: comparePatientsByName_def)
  have gt: "0 < comparePatientsByName sg b a \<longleftrightarrow> name_key sg (p_name a) < name_key sg (p_name b)"
    for a b
    using le[of b a] by auto
  show ?thesis
    unfolding cmp_consistent_def lt gt eq le by auto
qed

lemma sorted_by_comparePatientsByName:
  "sorted_wrt (\<lambda>a b. comparePatientsByName sg a b \<le> 0) xs \<longleftrightarrow>
     sorted (map (\<lambda>p. name_key sg (p_name p)) xs)"
  by (simp add: sorted_map comparePatientsByName_def stricmp_custom_le)

lemma sortPatientsByName_sorted:
  assumes "qsort_contract qsort" and "2 \<le> patientCount st"
  shows "fst (sortPatientsByName sg qsort st) = Sorted"
    and "live_patients (snd (sortPatientsByName sg qsort st)) =
           qsort (comparePatientsByName sg) (live_patients st)"
    and "mset (live_patients (snd (sortPatientsByName sg qsort st))) = mset (live_patients st)"
    and "sorted (map (\<lambda>p. name_key sg (p_name p)) (live_patients (snd (sortPatientsByName sg qsort st))))"
proof -
  let ?xs = "live_patients st" and ?ys = "qsort (comparePatientsByName sg) (live_patients st)"
  from assms(1) comparePatientsByName_consistent[of sg "set ?xs"]
  have m: "mset ?ys = mset ?xs" and s: "sorted_wrt (\<lambda>a b. comparePatientsByName sg a b \<le> 0) ?ys"
    unfolding qsort_contract_def by blast+
  from m have "length ?ys = length ?xs" by (rule mset_eq_length)
  then have len: "length ?ys = nat (patientCount st)" by (simp add: live_patients_def)
  show r: "fst (sortPatientsByName sg qsort st) = Sorted"
    using assms(2) by (simp add: sortPatientsByName_def)
  show l: "live_patients (snd (sortPatientsByName sg qsort st)) = ?ys"
    using assms(2) live_store[OF len, of "patients st"]
    by (simp add: sortPatientsByName_def) (simp add: live_patients_def)
  show "mset (live_patients (snd (sortPatientsByName sg qsort st))) = mset ?xs"
    unfolding l by (rule m)
  show "sorted (map (\<lambda>p. name_key sg (p_name p)) (live_patients (snd (sortPatientsByName sg qsort st))))"
    unfolding l using s by (simp add: sorted_by_comparePatientsByName)
qed

lemma mset_insert_by: "mset (insert_by cmp x ys) = add_mset x (mset ys)"
  by (induction ys) simp_all

lemma set_insert_by: "set (insert_by cmp x ys) = insert x (set ys)"
  by (induction ys) auto

lemma sorted_insert_by:
  assumes c: "cmp_consistent cmp A" and x: "x \<in> A"
  shows "set ys \<subseteq> A \<Longrightarrow> sorted_wrt (\<lambda>a b. cmp a b \<le> 0) ys \<Longrightarrow>
         sorted_wrt (\<lambda>a b. cmp a b \<le> 0) (insert_by cmp x ys)"
proof (induction ys)
  case Nil
  then show ?case by simp
next
  case (Cons y ys)
  from Cons.prems have y: "y \<in> A" and ys: "set ys \<subseteq> A"
    and ley: "\<forall>z\<in>set ys. cmp y z \<le> 0" and srt: "sorted_wrt (\<lambda>a b. cmp a b \<le> 0) ys"
    by simp_all
  from c have trans: "\<And>a b d. a \<in> A \<Longrightarrow> b \<in> A \<Longrightarrow> d \<in> A \<Longrightarrow> cmp a b \<le> 0 \<Longrightarrow> cmp b d \<le> 0 \<Longrightarrow> cmp a d \<le> 0"
    unfolding cmp_consistent_def by blast
  from c have anti: "\<And>a b. a \<in> A \<Longrightarrow> b \<in> A \<Longrightarrow> (cmp a b < 0 \<longleftrightarrow> 0 < cmp b a)"
    unfolding cmp_consistent_def by blast
  show ?case
  proof (cases "cmp x y \<le> 0")
    case True
    have "\<forall>z\<in>set ys. cmp x z \<le> 0"
    proof
      fix z assume z: "z \<in> set ys"
      with ys have "z \<in> A" by blast
      from trans[OF x y this True] ley z show "cmp x z \<le> 0" by blast
    qed
    with True Cons.prems show ?thesis by simp
  next
    case False
    then have "0 < cmp x y" by simp
    with anti[OF y x] have yx: "cmp y x \<le> 0" by simp
    from Cons.IH[OF ys srt] have "sorted_wrt (\<lambda>a b. cmp a b \<le> 0) (insert_by cmp x ys)" .
    with False yx ley show ?thesis by (simp add: set_insert_by)
  qed
qed

lemma insertion_qsort_contract: "qsort_contract insertion_qsort"
proof -
  have m: "mset (foldr (insert_by cmp) xs []) = mset xs" for cmp :: "Patient \<Rightarrow> Patient \<Rightarrow> int" and xs
    by (induction xs) (simp_all add: mset_insert_by)
  have s: "sorted_wrt (\<lambda>a b. cmp a b \<le> 0) (foldr (insert_by cmp) xs [])"
    if c: "cmp_consistent cmp A" and sub: "set xs \<subseteq> A"
    for cmp :: "Patient \<Rightarrow> Patient \<Rightarrow> int" and xs A
    using sub
  proof (induction xs)
    case Nil
    then show ?case by simp
  next
    case (Cons x xs)
    then have x: "x \<in> A" and xs: "set xs \<subseteq> A" by simp_all
    have "set (foldr (insert_by cmp) xs []) \<subseteq> A"
      using xs m[of cmp xs] by (metis set_mset_mset)
    from sorted_insert_by[OF c x this Cons.IH[OF xs]] show ?case by simp
  qed
  show ?thesis
    unfolding qsort_contract_def insertion_qsort_def
    using m s[OF _ subset_refl] by blast
qed

section \<open>Facts about the save file and the reachable states\<close>

lemma mod_split4:
  fixes x :: int
  shows "x mod 256 + 256 * (x div 256 mod 256) + 65536 * (x div 65536 mod 256)
         + 16777216 * (x div 16777216 mod 256) = x mod 4294967296"
proof -
  have a: "x mod 65536 = x mod 256 + 256 * (x div 256 mod 256)"
    using zmod_zmult2_eq[of 256 x 256] by simp
  have b: "x mod 16777216 = x mod 65536 + 65536 * (x div 65536 mod 256)"
    using zmod_zmult2_eq[of 256 x 65536] by simp
  have c: "x mod 4294967296 = x mod 16777216 + 16777216 * (x div 16777216 mod 256)"
    using zmod_zmult2_eq[of 256 x 16777216] by simp
  show ?thesis unfolding c b a by (rule refl)
qed

lemma length_int_bytes [simp]: "length (int_bytes x) = 4"
  by (simp add: int_bytes_def)

lemma int_bytes_nth:
  "(int_bytes x @ rest) ! 0 = char_of x"
  "(int_bytes x @ rest) ! 1 = char_of (x div 256)"
  "(int_bytes x @ rest) ! 2 = char_of (x div 65536)"
  "(int_bytes x @ rest) ! 3 = char_of (x div 16777216)"
  by (simp_all add: int_bytes_def nth_append numeral_3_eq_3 numeral_2_eq_2)

lemma bytes_int_int_bytes: "valid_int x \<Longrightarrow> bytes_int (int_bytes x @ rest) = x"
proof -
  assume v: "valid_int x"
  have u: "of_char ((int_bytes x @ rest) ! 0) + 256 * of_char ((int_bytes x @ rest) ! 1)
      + 65536 * of_char ((int_bytes x @ rest) ! 2) + 16777216 * of_char ((int_bytes x @ rest) ! 3)
      = x mod 4294967296"
    unfolding int_bytes_nth of_char_of by (rule mod_split4)
  show ?thesis
  proof (cases "0 \<le> x")
    case True
    with v have "x mod 4294967296 = x" by (simp add: valid_int_def INT_MAX_def)
    with v True show ?thesis
      unfolding bytes_int_def u by (simp add: valid_int_def INT_MAX_def)
  next
    case False
    have "(x + 4294967296) mod 4294967296 = x + 4294967296"
      using v False by (intro mod_pos_pos_trivial) (simp_all add: valid_int_def INT_MIN_def)
    then have "x mod 4294967296 = x + 4294967296" by simp
    with v False show ?thesis
      unfolding bytes_int_def u by (simp add: valid_int_def INT_MIN_def)
  qed
qed

lemma length_buffer [simp]: "length (buffer n s) = n"
  by (simp add: buffer_def)

lemma cstr_id: "NUL \<notin> set s \<Longrightarrow> cstr s = s"
  by (auto simp: cstr_def)

lemma cstr_append_NUL: "NUL \<notin> set s \<Longrightarrow> cstr (s @ NUL # r) = s"
  by (auto simp: cstr_def takeWhile_tail)

lemma cstr_buffer: "fits n s \<Longrightarrow> cstr (buffer n s) = s"
proof -
  assume f: "fits n s"
  then have l: "length s < n" and z: "NUL \<notin> set s" by (simp_all add: fits_def)
  from l obtain m where m: "n - length s = Suc m" by (cases "n - length s") auto
  have "take n (s @ replicate n NUL) = s @ replicate (n - length s) NUL"
    using l by simp
  also have "\<dots> = s @ NUL # replicate m NUL" by (simp add: m)
  finally show ?thesis using z by (simp add: buffer_def cstr_id cstr_append_NUL)
qed

lemma bytes_int_take: "valid_int x \<Longrightarrow> bytes_int (int_bytes x) = x"
  using bytes_int_int_bytes[of x "[]"] by simp

lemma bytes_Patient_bytes: "wf_Patient p \<Longrightarrow> bytes_Patient (Patient_bytes p) = p"
  by (simp add: wf_Patient_def bytes_Patient_def Patient_bytes_def bytes_int_take cstr_buffer)

lemma bytes_Disease_bytes: "wf_Disease d \<Longrightarrow> bytes_Disease (Disease_bytes d) = d"
  by (simp add: wf_Disease_def bytes_Disease_def Disease_bytes_def bytes_int_take cstr_buffer)

lemma bytes_Doctor_bytes: "wf_Doctor d \<Longrightarrow> bytes_Doctor (Doctor_bytes d) = d"
  by (simp add: wf_Doctor_def bytes_Doctor_def Doctor_bytes_def bytes_int_take cstr_buffer)

lemma bytes_Appointment_bytes: "wf_Appointment a \<Longrightarrow> bytes_Appointment (Appointment_bytes a) = a"
  by (simp add: wf_Appointment_def bytes_Appointment_def Appointment_bytes_def bytes_int_take
      cstr_buffer)

lemma length_Patient_bytes [simp]: "length (Patient_bytes p) = sizeof_Patient"
  by (simp add: Patient_bytes_def sizeof_Patient_def)

lemma length_Disease_bytes [simp]: "length (Disease_bytes p) = sizeof_Disease"
  by (simp add: Disease_bytes_def sizeof_Disease_def)

lemma length_Doctor_bytes [simp]: "length (Doctor_bytes p) = sizeof_Doctor"
  by (simp add: Doctor_bytes_def sizeof_Doctor_def)

lemma length_Appointment_bytes [simp]: "length (Appointment_bytes p) = sizeof_Appointment"
  by (simp add: Appointment_bytes_def sizeof_Appointment_def)

lemma fread_int_int_bytes: "valid_int x \<Longrightarrow> fread_int old (int_bytes x @ rest) = (x, rest)"
  by (simp add: fread_int_def bytes_int_take)

lemma fread_items_concat:
  assumes "\<forall>x\<in>set xs. length (enc x) = sz \<and> dec (enc x) = x"
  shows "fread_items dec sz (length xs) (concat (map enc xs) @ rest) = (xs, rest)"
  using assms
proof (induction xs)
  case Nil
  then show ?case by simp
next
  case (Cons x xs)
  then have x: "length (enc x) = sz" "dec (enc x) = x"
    and xs: "\<forall>y\<in>set xs. length (enc y) = sz \<and> dec (enc y) = y" by simp_all
  from Cons.IH[OF xs] x show ?case by simp
qed

lemma fread_table_fwrite_table:
  assumes "\<forall>x\<in>set (live src n). length (enc x) = sz \<and> dec (enc x) = x"
  shows "fread_table dec sz dst n (fwrite_table enc src n @ rest) =
           (if 0 < n then store dst (live src n) else dst, rest)"
proof (cases "0 < n")
  case False
  then show ?thesis by (simp add: fread_table_def fwrite_table_def)
next
  case True
  from fread_items_concat[OF assms, of rest]
  have "fread_items dec sz (nat n) (concat (map enc (live src n)) @ rest) = (live src n, rest)"
    by simp
  with True show ?thesis
    by (simp add: fread_table_def fwrite_table_def)
qed

lemma live_loaded_table: "live (if 0 < n then store dst (live src n) else dst) n = live src n"
proof (cases "0 < n")
  case True
  then show ?thesis by (simp add: live_store)
next
  case False
  then show ?thesis by (simp add: live_def)
qed

lemma valid_int_count: "0 \<le> n \<Longrightarrow> n \<le> 1000 \<Longrightarrow> valid_int n"
  by (simp add: valid_int_def INT_MIN_def INT_MAX_def)

lemma loadData_file_contents:
  assumes "wf_state S"
  shows "same_database (loadData (Some (file_contents S)) S0) S"
proof -
  from assms have c: "valid_int (patientCount S)" "valid_int (diseaseCount S)"
      "valid_int (doctorCount S)" "valid_int (appointmentCount S)"
    by (simp_all add: wf_state_def valid_int_count MAX_PATIENTS_def MAX_DISEASES_def
        MAX_DOCTORS_def MAX_APPOINTS_def)
  from assms have n: "valid_int (nextPatientId S)" "valid_int (nextDiseaseId S)"
      "valid_int (nextDoctorId S)" "valid_int (nextAppointmentId S)"
    by (simp_all add: wf_state_def)
  from assms have p: "\<forall>x\<in>set (live (patients S) (patientCount S)).
      length (Patient_bytes x) = sizeof_Patient \<and> bytes_Patient (Patient_bytes x) = x"
    by (simp add: wf_state_def live_patients_def list_all_iff bytes_Patient_bytes)
  from assms have d: "\<forall>x\<in>set (live (diseases S) (diseaseCount S)).
      length (Disease_bytes x) = sizeof_Disease \<and> bytes_Disease (Disease_bytes x) = x"
    by (simp add: wf_state_def live_diseases_def list_all_iff bytes_Disease_bytes)
  from assms have o: "\<forall>x\<in>set (live (doctors S) (doctorCount S)).
      length (Doctor_bytes x) = sizeof_Doctor \<and> bytes_Doctor (Doctor_bytes x) = x"
    by (simp add: wf_state_def live_doctors_def list_all_iff bytes_Doctor_bytes)
  from assms have a: "\<forall>x\<in>set (live (appointments S) (appointmentCount S)).
      length (Appointment_bytes x) = sizeof_Appointment \<and> bytes_Appointment (Appointment_bytes x) = x"
    by (simp add: wf_state_def live_appointments_def list_all_iff bytes_Appointment_bytes)
  note tp = fread_table_fwrite_table[OF p]
  note td = fread_table_fwrite_table[OF d]
  note to = fread_table_fwrite_table[OF o]
  note ta = fread_table_fwrite_table[OF a, of _ "[]", simplified]
  have "loadData (Some (file_contents S)) S0 =
     \<lparr>patients = (if 0 < patientCount S then store (patients S0) (live (patients S) (patientCount S))
                   else patients S0),
      diseases = (if 0 < diseaseCount S then store (diseases S0) (live (diseases S) (diseaseCount S))
                   else diseases S0),
      doctors = (if 0 < doctorCount S then store (doctors S0) (live (doctors S) (doctorCount S))
                   else doctors S0),
      appointments = (if 0 < appointmentCount S
                      then store (appointments S0) (live (appointments S) (appointmentCount S))
                      else appointments S0),
      patientCount = patientCount S, diseaseCount = diseaseCount S,
      doctorCount = doctorCount S, appointmentCount = appointmentCount S,
      nextPatientId = nextPatientId S, nextDiseaseId = nextDiseaseId S,
      nextDoctorId = nextDoctorId S, nextAppointmentId = nextAppointmentId S\<rparr>"
    unfolding loadData_def file_contents_def
    by (simp only: option.case fread_int_int_bytes[OF c(1)] fread_int_int_bytes[OF c(2)]
        fread_int_int_bytes[OF c(3)] fread_int_int_bytes[OF c(4)]
        fread_int_int_bytes[OF n(1)] fread_int_int_bytes[OF n(2)]
        fread_int_int_bytes[OF n(3)] fread_int_int_bytes[OF n(4)]
        tp td to ta Let_def prod.case)
  then show ?thesis
    by (simp add: same_database_def live_patients_def live_diseases_def live_doctors_def
        live_appointments_def live_loaded_table)
qed

lemma fits_strncpy_field: "0 < n \<Longrightarrow> fits n (strncpy_field n s)"
proof -
  assume n: "0 < n"
  have "NUL \<notin> set (cstr s)" by (auto simp: cstr_def dest: set_takeWhileD)
  then have "NUL \<notin> set (take (n - 1) (cstr s))" by (auto dest: in_set_takeD)
  moreover have "length (take (n - 1) (cstr s)) < n" using n by simp
  ultimately show ?thesis by (simp add: fits_def strncpy_field_def)
qed

lemma fits_getLine: "0 < n \<Longrightarrow> fits n (getLine n s)"
proof -
  assume n: "0 < n"
  have "NUL \<notin> set (cstr (take (n - 1) s))" by (auto simp: cstr_def dest: set_takeWhileD)
  moreover have "length (cstr (take (n - 1) s)) \<le> length (take (n - 1) s)"
    unfolding cstr_def by (rule length_takeWhile_le)
  then have "length (cstr (take (n - 1) s)) < n" using n by (simp add: min_def split: if_splits)
  ultimately show ?thesis by (simp add: fits_def getLine_def)
qed

lemma valid_int_0: "valid_int 0"
  by (simp add: valid_int_def INT_MIN_def INT_MAX_def)

lemma valid_int_incr: "valid_int (int_incr x)"
  using int_incr_range[of x] by (simp add: valid_int_def)

lemma wf_initial_state: "wf_state initial_state"
  by (simp add: wf_state_def initial_state_def live_patients_def live_diseases_def
      live_doctors_def live_appointments_def live_def valid_int_def INT_MIN_def INT_MAX_def
      MAX_PATIENTS_def MAX_DISEASES_def MAX_DOCTORS_def MAX_APPOINTS_def)

lemma wf_addPatient:
  assumes "wf_state st" "valid_int age" "valid_int docId"
  shows "wf_state (snd (addPatient st n age g ph ds docId))"
proof (cases "MAX_PATIENTS \<le> patientCount st")
  case True
  with assms(1) show ?thesis by (simp add: addPatient_def)
next
  case False
  from assms(1) have c: "0 \<le> patientCount st" by (simp add: wf_state_def)
  from assms show ?thesis
    using False c
    by (simp add: wf_state_def addPatient_def Let_def live_patients_def live_diseases_def
        live_doctors_def live_appointments_def live_upd_append wf_Patient_def
        fits_strncpy_field valid_int_incr valid_int_0)
qed

lemma wf_addDoctor:
  assumes "wf_state st"
  shows "wf_state (snd (addDoctor st n s ph))"
proof (cases "MAX_DOCTORS \<le> doctorCount st")
  case True
  with assms(1) show ?thesis by (simp add: addDoctor_def)
next
  case False
  from assms(1) have c: "0 \<le> doctorCount st" by (simp add: wf_state_def)
  from assms show ?thesis
    using False c
    by (simp add: wf_state_def addDoctor_def Let_def live_patients_def live_diseases_def
        live_doctors_def live_appointments_def live_upd_append wf_Doctor_def
        fits_strncpy_field valid_int_incr)
qed

lemma wf_addDisease:
  assumes "wf_state st"
  shows "wf_state (snd (addDisease st n s t))"
proof (cases "MAX_DISEASES \<le> diseaseCount st")
  case True
  with assms(1) show ?thesis by (simp add: addDisease_def)
next
  case False
  from assms(1) have c: "0 \<le> diseaseCount st" by (simp add: wf_state_def)
  from assms show ?thesis
    using False c
    by (simp add: wf_state_def addDisease_def Let_def live_patients_def live_diseases_def
        live_doctors_def live_appointments_def live_upd_append wf_Disease_def
        fits_strncpy_field valid_int_incr)
qed

lemma list_all_update: "list_all P xs \<Longrightarrow> P x \<Longrightarrow> list_all P (xs[i := x])"
  by (auto simp: list_all_iff dest: set_update_subset_insert[THEN subsetD])

lemma list_all_remove: "list_all P xs \<Longrightarrow> list_all P (take i xs @ drop (Suc i) xs)"
  by (auto simp: list_all_iff dest: in_set_takeD in_set_dropD)

lemma wf_addAppointment:
  assumes "wf_state st" "valid_int pid" "valid_int did"
  shows "wf_state (snd (addAppointment st pid did dt tm))"
proof (cases "fst (addAppointment st pid did dt tm) = AppointmentScheduled (nextAppointmentId st)")
  case False
  then have "snd (addAppointment st pid did dt tm) = st"
    by (auto simp: addAppointment_def Let_def split: if_splits)
  with assms(1) show ?thesis by simp
next
  case True
  then have g: "\<not> MAX_APPOINTS \<le> appointmentCount st" "findPatientIndex st pid \<noteq> - 1"
    "findDoctorIndex st did \<noteq> - 1" "\<not> (patientCount st = 0 \<or> doctorCount st = 0)"
    by (auto simp: addAppointment_def Let_def split: if_splits)
  from assms(1) have c: "0 \<le> appointmentCount st" by (simp add: wf_state_def)
  define i where "i = nat (findPatientIndex st pid)"
  from g(2) have mem: "pid \<in> p_id ` set (live_patients st)" by (simp add: findPatientIndex_none)
  note f = findPatientIndex_some[OF mem, folded i_def]
  from assms(1) have lp: "list_all wf_Patient (live_patients st)" by (simp add: wf_state_def)
  with f(2) have wi: "wf_Patient (live_patients st ! i)" by (simp add: list_all_length)
  then have wi': "wf_Patient ((patients st i)\<lparr>p_doctorId := did\<rparr>)"
    using assms(3) f(3) by (simp add: wf_Patient_def)
  have lp': "list_all wf_Patient ((live (patients st) (patientCount st))[i := (patients st i)\<lparr>p_doctorId := did\<rparr>])"
    using lp wi' unfolding live_patients_def by (rule list_all_update)
  let ?a = "\<lparr>a_id = nextAppointmentId st, a_patientId = pid, a_doctorId = did,
             a_date = getLine 20 dt, a_time = getLine 10 tm\<rparr>"
  let ?st' = "snd (addAppointment st pid did dt tm)"
  from assms have wa: "wf_Appointment ?a"
    by (simp add: wf_Appointment_def wf_state_def fits_getLine)
  have la: "live_appointments ?st' = live_appointments st @ [?a]"
    using g c by (simp add: addAppointment_def Let_def live_appointments_def live_upd_append)
  have lps: "live_patients ?st' = live_patients st \<or>
      live_patients ?st' = (live (patients st) (patientCount st))[i := (patients st i)\<lparr>p_doctorId := did\<rparr>]"
    using g by (simp add: addAppointment_def Let_def i_def[symmetric] live_patients_def live_upd)
  with lp lp' have wp: "list_all wf_Patient (live_patients ?st')" by auto
  from assms(1) wa have wap: "list_all wf_Appointment (live_appointments ?st')"
    unfolding la by (simp add: wf_state_def)
  have rest: "patientCount ?st' = patientCount st" "diseaseCount ?st' = diseaseCount st"
    "doctorCount ?st' = doctorCount st" "appointmentCount ?st' = appointmentCount st + 1"
    "nextPatientId ?st' = nextPatientId st" "nextDiseaseId ?st' = nextDiseaseId st"
    "nextDoctorId ?st' = nextDoctorId st" "nextAppointmentId ?st' = int_incr (nextAppointmentId st)"
    "live_diseases ?st' = live_diseases st" "live_doctors ?st' = live_doctors st"
    using g by (simp_all add: addAppointment_def Let_def live_diseases_def live_doctors_def)
  from assms(1) g(1) wp wap show ?thesis
    unfolding wf_state_def rest by (simp add: valid_int_incr)
qed

lemma wf_deletePatient:
  assumes "wf_state st"
  shows "wf_state (snd (deletePatient st ident answer))"
proof (cases "fst (deletePatient st ident answer) = Removed")
  case False
  then have "snd (deletePatient st ident answer) = st"
    by (auto simp: deletePatient_def Let_def split: if_splits)
  with assms show ?thesis by simp
next
  case True
  then have g: "findPatientIndex st ident \<noteq> - 1" "confirmed answer" "0 < ident"
    by (auto simp: deletePatient_def Let_def split: if_splits)
  define i where "i = nat (findPatientIndex st ident)"
  from g(1) have mem: "ident \<in> p_id ` set (live_patients st)" by (simp add: findPatientIndex_none)
  note f = findPatientIndex_some[OF mem, folded i_def]
  from f(2) have lt: "int i < patientCount st" by (simp add: live_patients_def)
  have s: "snd (deletePatient st ident answer) =
      st\<lparr>patients := shift_left (patients st) (int i) (patientCount st),
         patientCount := patientCount st - 1\<rparr>"
    using g f(1) by (simp add: deletePatient_def Let_def)
  have lv: "live_patients (snd (deletePatient st ident answer)) =
      take i (live_patients st) @ drop (Suc i) (live_patients st)"
    unfolding s using live_shift_left[of "int i" "patientCount st" "patients st"] lt
    by (simp add: live_patients_def)
  from assms have "list_all wf_Patient (live_patients st)" by (simp add: wf_state_def)
  then have "list_all wf_Patient (live_patients (snd (deletePatient st ident answer)))"
    unfolding lv by (rule list_all_remove)
  with assms lt show ?thesis
    unfolding wf_state_def by (simp add: s live_diseases_def live_doctors_def live_appointments_def)
qed

lemma wf_cancelAppointment:
  assumes "wf_state st"
  shows "wf_state (snd (cancelAppointment st ident answer))"
proof (cases "fst (cancelAppointment st ident answer) = Removed")
  case False
  then have "snd (cancelAppointment st ident answer) = st"
    by (auto simp: cancelAppointment_def Let_def split: if_splits)
  with assms show ?thesis by simp
next
  case True
  then have g: "findAppointmentIndex st ident \<noteq> - 1" "confirmed answer" "0 < ident"
    by (auto simp: cancelAppointment_def Let_def split: if_splits)
  define i where "i = nat (findAppointmentIndex st ident)"
  from g(1) have mem: "ident \<in> a_id ` set (live_appointments st)"
    by (simp add: findAppointmentIndex_none)
  note f = findAppointmentIndex_some[OF mem, folded i_def]
  from f(2) have lt: "int i < appointmentCount st" by (simp add: live_appointments_def)
  have s: "snd (cancelAppointment st ident answer) =
      st\<lparr>appointments := shift_left (appointments st) (int i) (appointmentCount st),
         appointmentCount := appointmentCount st - 1\<rparr>"
    using g f(1) by (simp add: cancelAppointment_def Let_def)
  have lv: "live_appointments (snd (cancelAppointment st ident answer)) =
      take i (live_appointments st) @ drop (Suc i) (live_appointments st)"
    unfolding s using live_shift_left[of "int i" "appointmentCount st" "appointments st"] lt
    by (simp add: live_appointments_def)
  from assms have "list_all wf_Appointment (live_appointments st)" by (simp add: wf_state_def)
  then have "list_all wf_Appointment (live_appointments (snd (cancelAppointment st ident answer)))"
    unfolding lv by (rule list_all_remove)
  with assms lt show ?thesis
    unfolding wf_state_def by (simp add: s live_diseases_def live_doctors_def live_patients_def)
qed

lemma wf_sortPatientsByName:
  assumes "qsort_contract qsort" "wf_state st"
  shows "wf_state (snd (sortPatientsByName sg qsort st))"
proof (cases "patientCount st < 2")
  case True
  with assms(2) show ?thesis by (simp add: sortPatientsByName_def)
next
  case False
  then have two: "2 \<le> patientCount st" by simp
  note t = sortPatientsByName_sorted[OF assms(1) two, of sg]
  from t(3) have "set (live_patients (snd (sortPatientsByName sg qsort st))) = set (live_patients st)"
    by (rule mset_eq_setD)
  moreover from assms(2) have "list_all wf_Patient (live_patients st)" by (simp add: wf_state_def)
  ultimately have "list_all wf_Patient (live_patients (snd (sortPatientsByName sg qsort st)))"
    by (simp add: list_all_iff)
  with assms(2) two show ?thesis
    unfolding wf_state_def
    by (simp add: sortPatientsByName_def live_diseases_def live_doctors_def live_appointments_def)
qed

lemma wf_exec:
  assumes "qsort_contract qsort" "wf_state st" "valid_op x"
  shows "wf_state (snd (exec sg qsort st x))"
  using assms
  by (cases x)
    (simp_all add: wf_addPatient wf_addDoctor wf_addDisease wf_addAppointment wf_deletePatient
      wf_cancelAppointment wf_sortPatientsByName)

lemma wf_same_database: "same_database t s \<Longrightarrow> wf_state s \<Longrightarrow> wf_state t"
  by (simp add: same_database_def wf_state_def)

lemma reachable_wf_state:
  assumes "qsort_contract qsort"
  shows "reachable sg qsort st \<Longrightarrow> wf_state st"
proof (induction rule: reachable.induct)
  case start
  show ?case by (simp add: loadData_def wf_initial_state)
next
  case (step st x)
  from wf_exec[OF assms step.IH step.hyps(2)] show ?case .
next
  case (restart st f)
  have "same_database (loadData (snd (saveData True st f)) initial_state) st"
    using loadData_file_contents[OF restart.IH] by (simp add: saveData_def)
  from wf_same_database[OF this restart.IH] show ?case .
qed

lemma reachable_run:
  "reachable sg qsort st \<Longrightarrow> list_all valid_op ops \<Longrightarrow> reachable sg qsort (snd (run sg qsort st ops))"
proof (induction ops arbitrary: st)
  case Nil
  then show ?case by simp
next
  case (Cons x xs)
  from Cons.prems have x: "valid_op x" and xs: "list_all valid_op xs" by simp_all
  from reachable.step[OF Cons.prems(1) x] have "reachable sg qsort (snd (exec sg qsort st x))" .
  from Cons.IH[OF this xs] show ?case
    by (simp add: case_prod_beta)
qed

lemma reachable_initial_state: "reachable sg qsort initial_state"
  using reachable.start[of sg qsort] by (simp add: loadData_def)

section \<open>Filling the four tables\<close>

lemma empty_fields:
  "strncpy_field 100 (getLine 200 []) = []" "strncpy_field 10 (getLine 200 []) = []"
  "strncpy_field 20 (getLine 200 []) = []" "strncpy_field 100 (getLine 300 []) = []"
  "strncpy_field 200 (getLine 300 []) = []" "getLine 20 [] = []" "getLine 10 [] = []"
  by (simp_all add: strncpy_field_def getLine_def cstr_def)

lemma int_incr_small: "0 \<le> x \<Longrightarrow> x \<le> 2000 \<Longrightarrow> int_incr x = x + 1"
  by (rule int_incr_plain) (simp_all add: INT_MIN_def INT_MAX_def)

lemma snd_run_append:
  "snd (run sg q st (xs @ ys)) = snd (run sg q (snd (run sg q st xs)) ys)"
  by (induction xs arbitrary: st) (simp_all add: case_prod_beta)

lemma snd_run_replicate_Suc:
  "snd (run sg q st (replicate (Suc n) x)) = snd (run sg q (snd (exec sg q st x)) (replicate n x))"
  by (simp add: case_prod_beta)

lemma run_addDoctors:
  "doctorCount st = int c \<Longrightarrow> nextDoctorId st = int c + 1 \<Longrightarrow>
   doctors st = (\<lambda>i. if i < c then zero_Doctor\<lparr>d_id := int i + 1\<rparr> else zero_Doctor) \<Longrightarrow>
   c + n \<le> 100 \<Longrightarrow>
   snd (run sg q st (replicate n (OpAddDoctor [] [] []))) =
     st\<lparr>nextDoctorId := int (c + n) + 1,
        doctors := (\<lambda>i. if i < c + n then zero_Doctor\<lparr>d_id := int i + 1\<rparr> else zero_Doctor),
        doctorCount := int (c + n)\<rparr>"
proof (induction n arbitrary: st c)
  case 0
  then show ?case by simp
next
  case (Suc n)
  let ?st1 = "snd (exec sg q st (OpAddDoctor [] [] []))"
  have upd: "(doctors st)(c := \<lparr>d_id = int c + 1, d_name = [], d_specialization = [], d_phone = []\<rparr>)
      = (\<lambda>i. if i < Suc c then zero_Doctor\<lparr>d_id := int i + 1\<rparr> else zero_Doctor)"
    unfolding Suc.prems(3) by (auto simp: zero_Doctor_def)
  define st1 where "st1 = st\<lparr>nextDoctorId := int (Suc c) + 1,
        doctors := (\<lambda>i. if i < Suc c then zero_Doctor\<lparr>d_id := int i + 1\<rparr> else zero_Doctor),
        doctorCount := int (Suc c)\<rparr>"
  have e: "snd (exec sg q st (OpAddDoctor [] [] [])) = st1"
    using Suc.prems(1,2,4) upd
    by (simp add: addDoctor_def MAX_DOCTORS_def empty_fields int_incr_small st1_def)
  have "snd (run sg q st1 (replicate n (OpAddDoctor [] [] []))) =
     st1\<lparr>nextDoctorId := int (Suc c + n) + 1,
        doctors := (\<lambda>i. if i < Suc c + n then zero_Doctor\<lparr>d_id := int i + 1\<rparr> else zero_Doctor),
        doctorCount := int (Suc c + n)\<rparr>"
    by (rule Suc.IH) (use Suc.prems(4) in \<open>simp_all add: st1_def\<close>)
  then show ?case
    unfolding snd_run_replicate_Suc e by (simp add: st1_def)
qed

lemma run_addPatients:
  "patientCount st = int c \<Longrightarrow> nextPatientId st = int c + 1 \<Longrightarrow>
   patients st = (\<lambda>i. if i < c then zero_Patient\<lparr>p_id := int i + 1\<rparr> else zero_Patient) \<Longrightarrow>
   c + n \<le> 500 \<Longrightarrow>
   snd (run sg q st (replicate n (OpAddPatient [] 0 [] [] [] 0))) =
     st\<lparr>nextPatientId := int (c + n) + 1,
        patients := (\<lambda>i. if i < c + n then zero_Patient\<lparr>p_id := int i + 1\<rparr> else zero_Patient),
        patientCount := int (c + n)\<rparr>"
proof (induction n arbitrary: st c)
  case 0
  then show ?case by simp
next
  case (Suc n)
  have upd: "(patients st)(c := \<lparr>p_id = int c + 1, p_name = [], p_age = 0, p_gender = [],
        p_phone = [], p_disease = [], p_doctorId = 0\<rparr>)
      = (\<lambda>i. if i < Suc c then zero_Patient\<lparr>p_id := int i + 1\<rparr> else zero_Patient)"
    unfolding Suc.prems(3) by (auto simp: zero_Patient_def)
  define st1 where "st1 = st\<lparr>nextPatientId := int (Suc c) + 1,
        patients := (\<lambda>i. if i < Suc c then zero_Patient\<lparr>p_id := int i + 1\<rparr> else zero_Patient),
        patientCount := int (Suc c)\<rparr>"
  have e: "snd (exec sg q st (OpAddPatient [] 0 [] [] [] 0)) = st1"
    using Suc.prems(1,2,4) upd
    by (simp add: addPatient_def MAX_PATIENTS_def empty_fields int_incr_small st1_def)
  have "snd (run sg q st1 (replicate n (OpAddPatient [] 0 [] [] [] 0))) =
     st1\<lparr>nextPatientId := int (Suc c + n) + 1,
        patients := (\<lambda>i. if i < Suc c + n then zero_Patient\<lparr>p_id := int i + 1\<rparr> else zero_Patient),
        patientCount := int (Suc c + n)\<rparr>"
    by (rule Suc.IH) (use Suc.prems(4) in \<open>simp_all add: st1_def\<close>)
  then show ?case
    unfolding snd_run_replicate_Suc e by (simp add: st1_def)
qed

lemma run_addDiseases:
  "diseaseCount st = int c \<Longrightarrow> nextDiseaseId st = int c + 1 \<Longrightarrow>
   diseases st = (\<lambda>i. if i < c then zero_Disease\<lparr>ds_id := int i + 1\<rparr> else zero_Disease) \<Longrightarrow>
   c + n \<le> 200 \<Longrightarrow>
   snd (run sg q st (replicate n (OpAddDisease [] [] []))) =
     st\<lparr>nextDiseaseId := int (c + n) + 1,
        diseases := (\<lambda>i. if i < c + n then zero_Disease\<lparr>ds_id := int i + 1\<rparr> else zero_Disease),
        diseaseCount := int (c + n)\<rparr>"
proof (induction n arbitrary: st c)
  case 0
  then show ?case by simp
next
  case (Suc n)
  have upd: "(diseases st)(c := \<lparr>ds_id = int c + 1, ds_name = [], ds_symptoms = [], ds_treatment = []\<rparr>)
      = (\<lambda>i. if i < Suc c then zero_Disease\<lparr>ds_id := int i + 1\<rparr> else zero_Disease)"
    unfolding Suc.prems(3) by (auto simp: zero_Disease_def)
  define st1 where "st1 = st\<lparr>nextDiseaseId := int (Suc c) + 1,
        diseases := (\<lambda>i. if i < Suc c then zero_Disease\<lparr>ds_id := int i + 1\<rparr> else zero_Disease),
        diseaseCount := int (Suc c)\<rparr>"
  have e: "snd (exec sg q st (OpAddDisease [] [] [])) = st1"
    using Suc.prems(1,2,4) upd
    by (simp add: addDisease_def MAX_DISEASES_def empty_fields int_incr_small st1_def)
  have "snd (run sg q st1 (replicate n (OpAddDisease [] [] []))) =
     st1\<lparr>nextDiseaseId := int (Suc c + n) + 1,
        diseases := (\<lambda>i. if i < Suc c + n then zero_Disease\<lparr>ds_id := int i + 1\<rparr> else zero_Disease),
        diseaseCount := int (Suc c + n)\<rparr>"
    by (rule Suc.IH) (use Suc.prems(4) in \<open>simp_all add: st1_def\<close>)
  then show ?case
    unfolding snd_run_replicate_Suc e by (simp add: st1_def)
qed

lemma find_index_from_first: "0 < n \<Longrightarrow> ids 0 = x \<Longrightarrow> find_index_from ids n x 0 = 0"
  by (simp add: find_index_from.simps[of ids n x 0])

lemma run_addAppointments:
  "appointmentCount st = int c \<Longrightarrow> nextAppointmentId st = int c + 1 \<Longrightarrow>
   appointments st = (\<lambda>i. if i < c then zero_Appointment\<lparr>a_id := int i + 1, a_patientId := 1,
                                                          a_doctorId := 1\<rparr>
                       else zero_Appointment) \<Longrightarrow>
   c + n \<le> 1000 \<Longrightarrow>
   0 < patientCount st \<Longrightarrow> 0 < doctorCount st \<Longrightarrow>
   p_id (patients st 0) = 1 \<Longrightarrow> d_id (doctors st 0) = 1 \<Longrightarrow> p_doctorId (patients st 0) = 1 \<Longrightarrow>
   snd (run sg q st (replicate n (OpAddAppointment 1 1 [] []))) =
     st\<lparr>nextAppointmentId := int (c + n) + 1,
        appointments := (\<lambda>i. if i < c + n then zero_Appointment\<lparr>a_id := int i + 1, a_patientId := 1,
                                                                 a_doctorId := 1\<rparr>
                              else zero_Appointment),
        appointmentCount := int (c + n)\<rparr>"
proof (induction n arbitrary: st c)
  case 0
  then show ?case by simp
next
  case (Suc n)
  have upd: "(appointments st)(c := \<lparr>a_id = int c + 1, a_patientId = 1, a_doctorId = 1,
        a_date = [], a_time = []\<rparr>)
      = (\<lambda>i. if i < Suc c then zero_Appointment\<lparr>a_id := int i + 1, a_patientId := 1, a_doctorId := 1\<rparr>
              else zero_Appointment)"
    unfolding Suc.prems(3) by (auto simp: zero_Appointment_def)
  have fp: "findPatientIndex st 1 = 0" unfolding findPatientIndex_def
    using Suc.prems(5,7) by (intro find_index_from_first) simp_all
  have fd: "findDoctorIndex st 1 = 0" unfolding findDoctorIndex_def
    using Suc.prems(6,8) by (intro find_index_from_first) simp_all
  define st1 where "st1 = st\<lparr>nextAppointmentId := int (Suc c) + 1,
        appointments := (\<lambda>i. if i < Suc c then zero_Appointment\<lparr>a_id := int i + 1, a_patientId := 1,
                                                                 a_doctorId := 1\<rparr>
                              else zero_Appointment),
        appointmentCount := int (Suc c)\<rparr>"
  have e: "snd (exec sg q st (OpAddAppointment 1 1 [] [])) = st1"
    using Suc.prems(1,2,4,5,6,9) upd fp fd
    by (simp add: addAppointment_def MAX_APPOINTS_def empty_fields int_incr_small st1_def Let_def)
  have "snd (run sg q st1 (replicate n (OpAddAppointment 1 1 [] []))) =
     st1\<lparr>nextAppointmentId := int (Suc c + n) + 1,
        appointments := (\<lambda>i. if i < Suc c + n then zero_Appointment\<lparr>a_id := int i + 1, a_patientId := 1,
                                                                 a_doctorId := 1\<rparr>
                              else zero_Appointment),
        appointmentCount := int (Suc c + n)\<rparr>"
    by (rule Suc.IH) (use Suc.prems(4-9) in \<open>simp_all add: st1_def\<close>)
  then show ?case
    unfolding snd_run_replicate_Suc e by (simp add: st1_def)
qed

lemma full_state_run: "snd (run sg q initial_state full_ops) = full_state"
proof -
  define s1 where "s1 = snd (run sg q initial_state (replicate 100 (OpAddDoctor [] [] [])))"
  define s2 where "s2 = snd (run sg q s1 (replicate 500 (OpAddPatient [] 0 [] [] [] 0)))"
  define s3 where "s3 = snd (run sg q s2 (replicate 200 (OpAddDisease [] [] [])))"
  define s4 where "s4 = snd (exec sg q s3 (OpAddAppointment 1 1 [] []))"
  define s5 where "s5 = snd (run sg q s4 (replicate 999 (OpAddAppointment 1 1 [] [])))"
  have r1000: "replicate 1000 (OpAddAppointment 1 1 [] []) =
      OpAddAppointment 1 1 [] [] # replicate 999 (OpAddAppointment 1 1 [] [])"
    by (simp add: replicate_Suc[symmetric] del: replicate_Suc)
  have all: "snd (run sg q initial_state full_ops) = s5"
    unfolding full_ops_def snd_run_append r1000 s1_def s2_def s3_def s4_def s5_def
    by (simp add: case_prod_beta)
  have e1: "s1 = initial_state\<lparr>nextDoctorId := 101,
        doctors := (\<lambda>i. if i < 100 then zero_Doctor\<lparr>d_id := int i + 1\<rparr> else zero_Doctor),
        doctorCount := 100\<rparr>"
    unfolding s1_def
    using run_addDoctors[of initial_state 0 100 sg q] by (simp add: initial_state_def)
  have e2: "s2 = s1\<lparr>nextPatientId := 501,
        patients := (\<lambda>i. if i < 500 then zero_Patient\<lparr>p_id := int i + 1\<rparr> else zero_Patient),
        patientCount := 500\<rparr>"
    unfolding s2_def
    using run_addPatients[of s1 0 500 sg q] by (simp add: e1 initial_state_def)
  have e3: "s3 = s2\<lparr>nextDiseaseId := 201,
        diseases := (\<lambda>i. if i < 200 then zero_Disease\<lparr>ds_id := int i + 1\<rparr> else zero_Disease),
        diseaseCount := 200\<rparr>"
    unfolding s3_def
    using run_addDiseases[of s2 0 200 sg q] by (simp add: e2 e1 initial_state_def)
  have fp: "findPatientIndex s3 1 = 0" unfolding findPatientIndex_def
    by (intro find_index_from_first) (simp_all add: e3 e2 e1 initial_state_def)
  have fd: "findDoctorIndex s3 1 = 0" unfolding findDoctorIndex_def
    by (intro find_index_from_first) (simp_all add: e3 e2 e1 initial_state_def)
  have e4: "s4 = s3\<lparr>nextAppointmentId := 2,
        appointments := (\<lambda>i. if i < 1 then zero_Appointment\<lparr>a_id := int i + 1, a_patientId := 1,
                                                             a_doctorId := 1\<rparr>
                              else zero_Appointment),
        appointmentCount := 1,
        patients := (\<lambda>i. if i < 500
                       then zero_Patient\<lparr>p_id := int i + 1, p_doctorId := (if i = 0 then 1 else 0)\<rparr>
                       else zero_Patient)\<rparr>"
    unfolding s4_def using fp fd
    by (auto simp: addAppointment_def MAX_APPOINTS_def empty_fields int_incr_def Let_def
        e3 e2 e1 initial_state_def zero_Appointment_def zero_Patient_def fun_eq_iff)
  have e5: "s5 = s4\<lparr>nextAppointmentId := 1001,
        appointments := (\<lambda>i. if i < 1000 then zero_Appointment\<lparr>a_id := int i + 1, a_patientId := 1,
                                                                 a_doctorId := 1\<rparr>
                              else zero_Appointment),
        appointmentCount := 1000\<rparr>"
    unfolding s5_def
    using run_addAppointments[of s4 1 999 sg q]
    by (simp add: e4 e3 e2 e1 initial_state_def zero_Patient_def zero_Doctor_def)
  show ?thesis
    unfolding all e5 e4 e3 e2 e1 by (simp add: full_state_def initial_state_def)
qed

section \<open>The concrete sessions, evaluated\<close>

lemma demo_patients: "live_patients demo_state =
  [\<lparr>p_id = 1, p_name = ''Bob'', p_age = 41, p_gender = ''M'', p_phone = ''555-0101'',
     p_disease = ''flu'', p_doctorId = 0\<rparr>,
   \<lparr>p_id = 2, p_name = ''alice'', p_age = 29, p_gender = ''F'', p_phone = ''555-0102'',
     p_disease = ''asthma'', p_doctorId = 1\<rparr>,
   \<lparr>p_id = 3, p_name = ''Charlie'', p_age = 35, p_gender = ''M'', p_phone = ''555-0103'',
     p_disease = ''cold'', p_doctorId = 0\<rparr>]"
  by code_simp

lemma demo_doctors: "live_doctors demo_state =
  [\<lparr>d_id = 1, d_name = ''Dr. Smith'', d_specialization = ''Cardiology'', d_phone = ''555-0100''\<rparr>]"
  by code_simp

lemma demo_counts: "patientCount demo_state = 3" "doctorCount demo_state = 1"
  "appointmentCount demo_state = 0" "diseaseCount demo_state = 0"
  "nextPatientId demo_state = 4" "nextAppointmentId demo_state = 1"
  by code_simp+

lemma demo_find: "findPatientIndex demo_state 1 = 0" "findPatientIndex demo_state 2 = 1"
  "findPatientIndex demo_state 3 = 2"
  by code_simp+

lemma confirmed_y: "confirmed ''y''" "confirmed ''Y''" "\<not> confirmed ''no''"
  by code_simp+

lemma scheduled_appointments: "live_appointments scheduled_state =
  [\<lparr>a_id = 1, a_patientId = 1, a_doctorId = 1, a_date = ''2025-01-15'', a_time = ''09:30''\<rparr>]"
  by code_simp

lemma scheduled_patients: "live_patients scheduled_state =
  [\<lparr>p_id = 1, p_name = ''Bob'', p_age = 41, p_gender = ''M'', p_phone = ''555-0101'',
     p_disease = ''flu'', p_doctorId = 1\<rparr>,
   \<lparr>p_id = 2, p_name = ''alice'', p_age = 29, p_gender = ''F'', p_phone = ''555-0102'',
     p_disease = ''asthma'', p_doctorId = 1\<rparr>,
   \<lparr>p_id = 3, p_name = ''Charlie'', p_age = 35, p_gender = ''M'', p_phone = ''555-0103'',
     p_disease = ''cold'', p_doctorId = 0\<rparr>]"
  by code_simp

lemma scheduled_find: "findAppointmentIndex scheduled_state 1 = 0"
  by code_simp

lemma johns_patients: "map p_name (live_patients johns_state) =
    [''John'', ''Johnny'', ''JOHN'', ''john'', ''Joh'']"
  "map p_id (live_patients johns_state) = [1, 2, 3, 4, 5]"
  by code_simp+

lemma demo_sorted_unique:
  assumes m: "mset ys = mset (live_patients demo_state)"
    and s: "sorted (map (\<lambda>p. name_key sg (p_name p)) ys)"
  shows "map p_name ys = [''alice'', ''Bob'', ''Charlie'']"
proof -
  let ?b = "\<lparr>p_id = 1, p_name = ''Bob'', p_age = 41, p_gender = ''M'', p_phone = ''555-0101'',
     p_disease = ''flu'', p_doctorId = 0\<rparr>"
  let ?a = "\<lparr>p_id = 2, p_name = ''alice'', p_age = 29, p_gender = ''F'', p_phone = ''555-0102'',
     p_disease = ''asthma'', p_doctorId = 1\<rparr>"
  let ?c = "\<lparr>p_id = 3, p_name = ''Charlie'', p_age = 35, p_gender = ''M'', p_phone = ''555-0103'',
     p_disease = ''cold'', p_doctorId = 0\<rparr>"
  let ?k = "\<lambda>p. name_key sg (p_name p)"
  let ?zs = "[?a, ?b, ?c]"
  have ka: "name_key sg ''alice'' = [97, 108, 105, 99, 101]"
    and kb: "name_key sg ''Bob'' = [98, 111, 98]"
    and kc: "name_key sg ''Charlie'' = [99, 104, 97, 114, 108, 105, 101]"
    by (simp_all add: name_key_alt cstr_def NUL_def tolower_def to_char_def)
  have mz: "mset ys = mset ?zs" unfolding m demo_patients by simp
  then have set_eq: "set ys = set ?zs" by (rule mset_eq_setD)
  have sz: "sorted (map ?k ?zs)" by (simp add: ka kb kc)
  have dz: "distinct (map ?k ?zs)" by (simp add: ka kb kc)
  from mz have "mset (map ?k ys) = mset (map ?k ?zs)" by simp
  then have dy: "distinct (map ?k ys)" using dz by (metis distinct_count_atmost_1 set_mset_mset)
  have inj: "inj_on ?k (set ys \<union> set ?zs)"
    unfolding set_eq by (simp add: ka kb kc)
  from map_sorted_distinct_set_unique[OF inj s dy sz dz set_eq]
  have "ys = ?zs" .
  then show ?thesis by simp
qed

lemma valid_demo_ops: "list_all valid_op demo_ops"
  by (simp add: demo_ops_def valid_int_def INT_MIN_def INT_MAX_def)

lemma reachable_scheduled_state: "reachable True insertion_qsort scheduled_state"
proof -
  have d: "reachable True insertion_qsort demo_state"
    unfolding demo_state_def by (rule reachable_run[OF reachable_initial_state valid_demo_ops])
  have v: "valid_op (OpAddAppointment 1 1 ''2025-01-15'' ''09:30'')"
    by (simp add: valid_int_def INT_MIN_def INT_MAX_def)
  from reachable.step[OF d v] show ?thesis by (simp add: scheduled_state_def)
qed

lemma file_length: "length (file_contents scheduled_state) = 32 + 3 * 244 + 224 + 44"
  by code_simp

lemma after_delete:
  "live_patients (snd (deletePatient scheduled_state 1 ''y'')) =
    [\<lparr>p_id = 2, p_name = ''alice'', p_age = 29, p_gender = ''F'', p_phone = ''555-0102'',
       p_disease = ''asthma'', p_doctorId = 1\<rparr>,
     \<lparr>p_id = 3, p_name = ''Charlie'', p_age = 35, p_gender = ''M'', p_phone = ''555-0103'',
       p_disease = ''cold'', p_doctorId = 0\<rparr>]"
  "live_appointments (snd (deletePatient scheduled_state 1 ''y'')) =
    [\<lparr>a_id = 1, a_patientId = 1, a_doctorId = 1, a_date = ''2025-01-15'', a_time = ''09:30''\<rparr>]"
  "fst (displayAppointments (snd (deletePatient scheduled_state 1 ''y''))) =
     [(1, ''Unknown'', 1, ''Dr. Smith'', 1, ''2025-01-15'', ''09:30'')]"
  "fst (displayAppointments scheduled_state) =
     [(1, ''Bob'', 1, ''Dr. Smith'', 1, ''2025-01-15'', ''09:30'')]"
  by code_simp+

lemma after_cancel:
  "live_appointments (snd (cancelAppointment scheduled_state 1 ''y'')) = []"
  "map p_doctorId (live_patients (snd (cancelAppointment scheduled_state 1 ''y''))) = [1, 1, 0]"
  by code_simp+

section \<open>The claims\<close>

subsection \<open>C1: an appointment adopts the primary doctor of an unassigned patient\<close>

text \<open>
  Claim C1. Let the appointment table be below its capacity, \<open>pid\<close> be the id of a live
  patient and \<open>did\<close> the id of a live doctor. Then \<open>addAppointment\<close> succeeds with the
  next appointment id and appends the appointment, whose doctor is \<open>did\<close>. The referenced
  patient is the first live patient with id \<open>pid\<close>, at index \<open>i\<close>. If that patient's
  \<open>doctorId\<close> was 0 before the call it is \<open>did\<close> afterwards; if it was not 0 it is
  unchanged, whatever \<open>did\<close> is. Nothing else in the patient table changes.
\<close>

theorem C1_appointment_adopts_primary_doctor:
  assumes "0 \<le> appointmentCount st" and "appointmentCount st < MAX_APPOINTS"
    and "pid \<in> p_id ` set (live_patients st)"
    and "did \<in> d_id ` set (live_doctors st)"
  shows
   "(let i = nat (findPatientIndex st pid);
         old = live_patients st ! i;
         st' = snd (addAppointment st pid did date_in time_in);
         new = live_patients st' ! i
     in fst (addAppointment st pid did date_in time_in) = AppointmentScheduled (nextAppointmentId st) \<and>
        live_appointments st' = live_appointments st @
          [\<lparr>a_id = nextAppointmentId st, a_patientId = pid, a_doctorId = did,
            a_date = getLine 20 date_in, a_time = getLine 10 time_in\<rparr>] \<and>
        i < length (live_patients st) \<and> p_id old = pid \<and>
        (\<forall>k<i. p_id (live_patients st ! k) \<noteq> pid) \<and>
        (p_doctorId old = 0 \<longrightarrow> p_doctorId new = did) \<and>
        (p_doctorId old \<noteq> 0 \<longrightarrow> p_doctorId new = p_doctorId old) \<and>
        live_patients st' =
          (live_patients st)[i := old\<lparr>p_doctorId := (if p_doctorId old = 0 then did else p_doctorId old)\<rparr>])"
proof -
  define i where "i = nat (findPatientIndex st pid)"
  note f = findPatientIndex_some[OF assms(3), folded i_def]
  from assms(3) have pne: "findPatientIndex st pid \<noteq> - 1" by (simp add: findPatientIndex_none)
  from assms(4) have dne: "findDoctorIndex st did \<noteq> - 1" by (simp add: findDoctorIndex_none)
  from f(2) have pc: "patientCount st \<noteq> 0" by (auto simp: live_patients_def)
  from assms(4) have dc: "doctorCount st \<noteq> 0" by (auto simp: live_doctors_def live_def)
  define st' where "st' = snd (addAppointment st pid did date_in time_in)"
  have r: "fst (addAppointment st pid did date_in time_in) = AppointmentScheduled (nextAppointmentId st)"
    using assms(2) pne dne pc dc by (simp add: addAppointment_def Let_def)
  have la: "live_appointments st' = live_appointments st @
          [\<lparr>a_id = nextAppointmentId st, a_patientId = pid, a_doctorId = did,
            a_date = getLine 20 date_in, a_time = getLine 10 time_in\<rparr>]"
    unfolding st'_def using assms(1,2) pne dne pc dc
    by (simp add: addAppointment_def Let_def live_appointments_def live_upd_append)
  have lp: "live_patients st' = (live_patients st)
      [i := (live_patients st ! i)\<lparr>p_doctorId :=
          (if p_doctorId (live_patients st ! i) = 0 then did else p_doctorId (live_patients st ! i))\<rparr>]"
    unfolding st'_def using assms(2) pne dne pc dc f
    by (simp add: addAppointment_def Let_def live_patients_def live_upd live_upd_id)
  from f(2) have new: "p_doctorId (live_patients st' ! i) =
      (if p_doctorId (live_patients st ! i) = 0 then did else p_doctorId (live_patients st ! i))"
    unfolding lp by simp
  show ?thesis
    unfolding Let_def i_def[symmetric] st'_def[symmetric]
    using r la lp new f by simp
qed

text \<open>
  The session with three patients: patient 1 has no doctor and adopts doctor 1; patient 2
  already has a doctor and the table stays as it was.
\<close>

theorem C1_witness:
  "0 \<le> appointmentCount demo_state \<and> appointmentCount demo_state < MAX_APPOINTS \<and>
   1 \<in> p_id ` set (live_patients demo_state) \<and> 2 \<in> p_id ` set (live_patients demo_state) \<and>
   1 \<in> d_id ` set (live_doctors demo_state) \<and>
   p_doctorId (live_patients demo_state ! 0) = 0 \<and>
   p_doctorId (live_patients (snd (addAppointment demo_state 1 1 ''2025-01-15'' ''09:30'')) ! 0) = 1 \<and>
   p_doctorId (live_patients scheduled_state ! 0) = 1 \<and>
   fst (addAppointment demo_state 1 1 ''2025-01-15'' ''09:30'') = AppointmentScheduled 1 \<and>
   live_patients (snd (addAppointment demo_state 2 1 ''2025-01-16'' ''10:00'')) =
     live_patients demo_state"
proof -
  have h: "0 \<le> appointmentCount demo_state" "appointmentCount demo_state < MAX_APPOINTS"
    "1 \<in> p_id ` set (live_patients demo_state)" "2 \<in> p_id ` set (live_patients demo_state)"
    "1 \<in> d_id ` set (live_doctors demo_state)"
    by (simp_all add: demo_counts MAX_APPOINTS_def demo_patients demo_doctors)
  from C1_appointment_adopts_primary_doctor[OF h(1,2,3,5), of "''2025-01-15''" "''09:30''"]
  have a: "fst (addAppointment demo_state 1 1 ''2025-01-15'' ''09:30'') = AppointmentScheduled 1"
    "p_doctorId (live_patients (snd (addAppointment demo_state 1 1 ''2025-01-15'' ''09:30'')) ! 0) = 1"
    by (simp_all add: Let_def demo_find demo_patients demo_counts)
  from C1_appointment_adopts_primary_doctor[OF h(1,2,4,5), of "''2025-01-16''" "''10:00''"]
  have b: "live_patients (snd (addAppointment demo_state 2 1 ''2025-01-16'' ''10:00'')) =
     live_patients demo_state"
    by (simp add: Let_def demo_find demo_patients)
  from h a b show ?thesis
    by (simp add: demo_patients scheduled_state_def)
qed

subsection \<open>C2: saving and loading again\<close>

text \<open>
  Claim C2. Let \<^verbatim>\<open>qsort\<close> keep its contract and \<open>S\<close> be a reachable state. Saving \<open>S\<close>
  (when the file can be opened) and loading the bytes that were written, into whatever state
  the program is in, gives the database of \<open>S\<close>: the four counts, the four next ids and
  the live records of the four tables, field by field, are those of \<open>S\<close>.
\<close>

theorem C2_save_then_load_round_trip:
  assumes "qsort_contract qsort" and "reachable sg qsort S"
  shows "fst (saveData True S file_before) = Saved \<and>
         snd (saveData True S file_before) = Some (file_contents S) \<and>
         (let S' = loadData (snd (saveData True S file_before)) S0
          in patientCount S' = patientCount S \<and> diseaseCount S' = diseaseCount S \<and>
             doctorCount S' = doctorCount S \<and> appointmentCount S' = appointmentCount S \<and>
             nextPatientId S' = nextPatientId S \<and> nextDiseaseId S' = nextDiseaseId S \<and>
             nextDoctorId S' = nextDoctorId S \<and> nextAppointmentId S' = nextAppointmentId S \<and>
             live_patients S' = live_patients S \<and> live_diseases S' = live_diseases S \<and>
             live_doctors S' = live_doctors S \<and> live_appointments S' = live_appointments S)"
proof -
  from reachable_wf_state[OF assms] have "wf_state S" .
  from loadData_file_contents[OF this, of S0] show ?thesis
    by (simp add: saveData_def same_database_def Let_def)
qed

text \<open>
  The session with three patients, a doctor and an appointment is reachable; its save file
  has 1032 bytes and, loaded into the fresh globals, gives its counts, ids, patients and
  appointment back.
\<close>

theorem C2_witness:
  "qsort_contract insertion_qsort \<and> reachable True insertion_qsort scheduled_state \<and>
   fst (saveData True scheduled_state None) = Saved \<and>
   length (the (snd (saveData True scheduled_state None))) = 32 + 3 * 244 + 224 + 44 \<and>
   patientCount (loadData (snd (saveData True scheduled_state None)) initial_state) = 3 \<and>
   nextPatientId (loadData (snd (saveData True scheduled_state None)) initial_state) = 4 \<and>
   live_appointments (loadData (snd (saveData True scheduled_state None)) initial_state) =
     [\<lparr>a_id = 1, a_patientId = 1, a_doctorId = 1, a_date = ''2025-01-15'', a_time = ''09:30''\<rparr>] \<and>
   live_patients (loadData (snd (saveData True scheduled_state None)) initial_state) =
     live_patients scheduled_state \<and>
   map p_name (live_patients (loadData (snd (saveData True scheduled_state None)) initial_state)) =
     [''Bob'', ''alice'', ''Charlie'']"
proof -
  have c: "patientCount scheduled_state = 3" "nextPatientId scheduled_state = 4" by code_simp+
  note t = C2_save_then_load_round_trip[OF insertion_qsort_contract reachable_scheduled_state,
      of None initial_state, unfolded Let_def]
  from t have s: "fst (saveData True scheduled_state None) = Saved"
    "snd (saveData True scheduled_state None) = Some (file_contents scheduled_state)"
    by simp_all
  from s(2) have l: "length (the (snd (saveData True scheduled_state None))) = 32 + 3 * 244 + 224 + 44"
    by (simp add: file_length)
  let ?L = "loadData (snd (saveData True scheduled_state None)) initial_state"
  from t have e: "patientCount ?L = patientCount scheduled_state"
    "nextPatientId ?L = nextPatientId scheduled_state"
    "live_appointments ?L = live_appointments scheduled_state"
    "live_patients ?L = live_patients scheduled_state"
    by blast+
  have "patientCount ?L = 3" "nextPatientId ?L = 4"
    "live_appointments ?L =
     [\<lparr>a_id = 1, a_patientId = 1, a_doctorId = 1, a_date = ''2025-01-15'', a_time = ''09:30''\<rparr>]"
    "map p_name (live_patients ?L) = [''Bob'', ''alice'', ''Charlie'']"
    unfolding e by (simp_all add: c scheduled_appointments scheduled_patients)
  with s(1) l e(4) insertion_qsort_contract reachable_scheduled_state show ?thesis by blast
qed

subsection \<open>C3: the N-th successful add of a table is given the id N\<close>

text \<open>
  Claim C3. Run any sequence of operations from the empty database, with any \<^verbatim>\<open>qsort\<close>,
  and collect, for one table, the ids announced by its successful adds, in order. They are
  \<open>1, 2, ..., n\<close>: the N-th successful add is given the id N. The deletes, the sort and the
  adds to other tables that the sequence contains make no difference, and deletes that make
  room let the adds go on past the capacity of the table. The only bound is the one of the
  counter itself, an \<^verbatim>\<open>int\<close>: the number of successful adds is at most \<^verbatim>\<open>INT_MAX\<close>,
  which every number of adds within the capacity is.
\<close>

theorem C3_ids_count_up_from_one:
  assumes "int (length (assigned_ids e (fst (run sg qsort initial_state ops)))) \<le> INT_MAX"
  shows "assigned_ids e (fst (run sg qsort initial_state ops)) =
           map int [1..<Suc (length (assigned_ids e (fst (run sg qsort initial_state ops))))] \<and>
         (\<forall>N. 1 \<le> N \<and> N \<le> length (assigned_ids e (fst (run sg qsort initial_state ops))) \<longrightarrow>
            assigned_ids e (fst (run sg qsort initial_state ops)) ! (N - 1) = int N)"
proof -
  let ?ids = "assigned_ids e (fst (run sg qsort initial_state ops))"
  have n1: "next_id e initial_state = 1" by (cases e) (simp_all add: initial_state_def)
  from assms have b: "next_id e initial_state + int (length ?ids) \<le> INT_MAX + 1"
    unfolding n1 by simp
  have "?ids = map (\<lambda>j. next_id e initial_state + int j) [0..<length ?ids]"
    by (rule run_assigned_ids[OF _ _ b]) (simp_all add: n1 INT_MIN_def INT_MAX_def)
  also have "\<dots> = map int (map Suc [0..<length ?ids])" unfolding n1 by simp
  also have "map Suc [0..<length ?ids] = [1..<Suc (length ?ids)]" by (simp add: map_Suc_upt)
  finally have eq: "?ids = map int [1..<Suc (length ?ids)]" .
  have "\<forall>N. 1 \<le> N \<and> N \<le> length ?ids \<longrightarrow> ?ids ! (N - 1) = int N"
  proof (intro allI impI)
    fix N assume N: "1 \<le> N \<and> N \<le> length ?ids"
    then have "N - 1 < length [1..<Suc (length ?ids)]" by auto
    then have "map int [1..<Suc (length ?ids)] ! (N - 1) = int ([1..<Suc (length ?ids)] ! (N - 1))"
      by (rule nth_map)
    also have "[1..<Suc (length ?ids)] ! (N - 1) = 1 + (N - 1)"
      using N by (intro nth_upt) auto
    also have "1 + (N - 1) = N" using N by simp
    finally show "?ids ! (N - 1) = int N" using eq by simp
  qed
  with eq show ?thesis by blast
qed

text \<open>
  Three patients, a delete of patient 2, then a fourth patient: the ids are 1, 2, 3, 4, and
  the doctors added in between do not disturb them.
\<close>

theorem C3_witness:
  "int (length (assigned_ids PatientTable (fst (run True insertion_qsort initial_state
      (demo_ops @ [OpDeletePatient 2 ''y'', OpAddPatient ''Dana'' 52 ''F'' ''555-0104'' ''gout'' 0,
                   OpAddDoctor ''Dr. Jones'' ''Surgery'' ''555-0105''])))))
     \<le> INT_MAX \<and>
   assigned_ids PatientTable (fst (run True insertion_qsort initial_state
      (demo_ops @ [OpDeletePatient 2 ''y'', OpAddPatient ''Dana'' 52 ''F'' ''555-0104'' ''gout'' 0,
                   OpAddDoctor ''Dr. Jones'' ''Surgery'' ''555-0105''])))
     = [1, 2, 3, 4]"
proof -
  let ?ops = "demo_ops @ [OpDeletePatient 2 ''y'', OpAddPatient ''Dana'' 52 ''F'' ''555-0104'' ''gout'' 0,
                   OpAddDoctor ''Dr. Jones'' ''Surgery'' ''555-0105'']"
  have rs: "fst (run True insertion_qsort initial_state ?ops) =
      [DoctorAdded 1, PatientAdded 1, PatientAdded 2, PatientAdded 3, Removed, PatientAdded 4,
       DoctorAdded 2]"
    by code_simp
  have len: "length (assigned_ids PatientTable (fst (run True insertion_qsort initial_state ?ops))) = 4"
    unfolding rs by (simp add: assigned_ids_def List.map_filter_simps)
  then have h: "int (length (assigned_ids PatientTable (fst (run True insertion_qsort initial_state ?ops))))
     \<le> INT_MAX"
    by (simp add: INT_MAX_def)
  from C3_ids_count_up_from_one[OF h] have
    "assigned_ids PatientTable (fst (run True insertion_qsort initial_state ?ops)) = map int [1..<Suc 4]"
    unfolding len by blast
  also have "map int [1..<Suc 4] = [1, 2, 3, 4]" by (simp add: upt_rec)
  finally show ?thesis using h by simp
qed

subsection \<open>C4: deleting a patient and cancelling an appointment\<close>

text \<open>
  Claim C4, as the code has it. For \<open>deletePatient\<close> and in the same way for
  \<open>cancelAppointment\<close>:
  \<^item> an id that is not positive is reported as an invalid id, before any lookup, and the
    state is unchanged;
  \<^item> a positive id that no live record has is reported as not found, and the state is
    unchanged;
  \<^item> a positive id that a live record has, without the confirmation (an answer that starts
    with y or Y), leaves the state unchanged;
  \<^item> a positive id that a live record has, with the confirmation, removes the first live
    record with that id: the records before it and after it keep their order and their
    contents, and the count goes down by one.
\<close>

theorem C4_delete_removes_exactly_one_record:
  "(ident \<le> 0 \<longrightarrow> deletePatient st ident answer = (InvalidId, st)) \<and>
   (0 < ident \<and> ident \<notin> p_id ` set (live_patients st) \<longrightarrow>
      deletePatient st ident answer = (NotFound, st)) \<and>
   (0 < ident \<and> ident \<in> p_id ` set (live_patients st) \<and> \<not> confirmed answer \<longrightarrow>
      deletePatient st ident answer = (NotConfirmed, st)) \<and>
   (0 < ident \<and> ident \<in> p_id ` set (live_patients st) \<and> confirmed answer \<longrightarrow>
      (let i = nat (findPatientIndex st ident);
           st' = snd (deletePatient st ident answer)
       in fst (deletePatient st ident answer) = Removed \<and>
          i < length (live_patients st) \<and> p_id (live_patients st ! i) = ident \<and>
          (\<forall>k<i. p_id (live_patients st ! k) \<noteq> ident) \<and>
          live_patients st' = take i (live_patients st) @ drop (Suc i) (live_patients st) \<and>
          patientCount st' = patientCount st - 1)) \<and>
   (ident \<le> 0 \<longrightarrow> cancelAppointment st ident answer = (InvalidId, st)) \<and>
   (0 < ident \<and> ident \<notin> a_id ` set (live_appointments st) \<longrightarrow>
      cancelAppointment st ident answer = (NotFound, st)) \<and>
   (0 < ident \<and> ident \<in> a_id ` set (live_appointments st) \<and> \<not> confirmed answer \<longrightarrow>
      cancelAppointment st ident answer = (NotConfirmed, st)) \<and>
   (0 < ident \<and> ident \<in> a_id ` set (live_appointments st) \<and> confirmed answer \<longrightarrow>
      (let i = nat (findAppointmentIndex st ident);
           st' = snd (cancelAppointment st ident answer)
       in fst (cancelAppointment st ident answer) = Removed \<and>
          i < length (live_appointments st) \<and> a_id (live_appointments st ! i) = ident \<and>
          (\<forall>k<i. a_id (live_appointments st ! k) \<noteq> ident) \<and>
          live_appointments st' =
            take i (live_appointments st) @ drop (Suc i) (live_appointments st) \<and>
          appointmentCount st' = appointmentCount st - 1))"
proof -
  have p1: "ident \<le> 0 \<longrightarrow> deletePatient st ident answer = (InvalidId, st)"
    by (simp add: deletePatient_def)
  have p2: "0 < ident \<and> ident \<notin> p_id ` set (live_patients st) \<longrightarrow>
      deletePatient st ident answer = (NotFound, st)"
    by (simp add: deletePatient_def findPatientIndex_none)
  have p3: "0 < ident \<and> ident \<in> p_id ` set (live_patients st) \<and> \<not> confirmed answer \<longrightarrow>
      deletePatient st ident answer = (NotConfirmed, st)"
    by (simp add: deletePatient_def findPatientIndex_none)
  have p4: "0 < ident \<and> ident \<in> p_id ` set (live_patients st) \<and> confirmed answer \<longrightarrow>
      (let i = nat (findPatientIndex st ident);
           st' = snd (deletePatient st ident answer)
       in fst (deletePatient st ident answer) = Removed \<and>
          i < length (live_patients st) \<and> p_id (live_patients st ! i) = ident \<and>
          (\<forall>k<i. p_id (live_patients st ! k) \<noteq> ident) \<and>
          live_patients st' = take i (live_patients st) @ drop (Suc i) (live_patients st) \<and>
          patientCount st' = patientCount st - 1)"
  proof (intro impI)
    assume a: "0 < ident \<and> ident \<in> p_id ` set (live_patients st) \<and> confirmed answer"
    define i where "i = nat (findPatientIndex st ident)"
    from a have mem: "ident \<in> p_id ` set (live_patients st)" by simp
    note f = findPatientIndex_some[OF mem, folded i_def]
    from mem have ne: "findPatientIndex st ident \<noteq> - 1" by (simp add: findPatientIndex_none)
    from f(2) have lt: "int i < patientCount st" by (simp add: live_patients_def)
    have del: "deletePatient st ident answer =
        (Removed, st\<lparr>patients := shift_left (patients st) (int i) (patientCount st),
                      patientCount := patientCount st - 1\<rparr>)"
      using a ne f(1) by (simp add: deletePatient_def Let_def)
    have lv: "live_patients (snd (deletePatient st ident answer)) =
        take i (live_patients st) @ drop (Suc i) (live_patients st)"
      unfolding del using live_shift_left[of "int i" "patientCount st" "patients st"] lt
      by (simp add: live_patients_def)
    show "let i = nat (findPatientIndex st ident);
           st' = snd (deletePatient st ident answer)
       in fst (deletePatient st ident answer) = Removed \<and>
          i < length (live_patients st) \<and> p_id (live_patients st ! i) = ident \<and>
          (\<forall>k<i. p_id (live_patients st ! k) \<noteq> ident) \<and>
          live_patients st' = take i (live_patients st) @ drop (Suc i) (live_patients st) \<and>
          patientCount st' = patientCount st - 1"
      unfolding Let_def i_def[symmetric] using lv f by (simp add: del)
  qed
  have a1: "ident \<le> 0 \<longrightarrow> cancelAppointment st ident answer = (InvalidId, st)"
    by (simp add: cancelAppointment_def)
  have a2: "0 < ident \<and> ident \<notin> a_id ` set (live_appointments st) \<longrightarrow>
      cancelAppointment st ident answer = (NotFound, st)"
    by (simp add: cancelAppointment_def findAppointmentIndex_none)
  have a3: "0 < ident \<and> ident \<in> a_id ` set (live_appointments st) \<and> \<not> confirmed answer \<longrightarrow>
      cancelAppointment st ident answer = (NotConfirmed, st)"
    by (simp add: cancelAppointment_def findAppointmentIndex_none)
  have a4: "0 < ident \<and> ident \<in> a_id ` set (live_appointments st) \<and> confirmed answer \<longrightarrow>
      (let i = nat (findAppointmentIndex st ident);
           st' = snd (cancelAppointment st ident answer)
       in fst (cancelAppointment st ident answer) = Removed \<and>
          i < length (live_appointments st) \<and> a_id (live_appointments st ! i) = ident \<and>
          (\<forall>k<i. a_id (live_appointments st ! k) \<noteq> ident) \<and>
          live_appointments st' =
            take i (live_appointments st) @ drop (Suc i) (live_appointments st) \<and>
          appointmentCount st' = appointmentCount st - 1)"
  proof (intro impI)
    assume a: "0 < ident \<and> ident \<in> a_id ` set (live_appointments st) \<and> confirmed answer"
    define i where "i = nat (findAppointmentIndex st ident)"
    from a have mem: "ident \<in> a_id ` set (live_appointments st)" by simp
    note f = findAppointmentIndex_some[OF mem, folded i_def]
    from mem have ne: "findAppointmentIndex st ident \<noteq> - 1"
      by (simp add: findAppointmentIndex_none)
    from f(2) have lt: "int i < appointmentCount st" by (simp add: live_appointments_def)
    have del: "cancelAppointment st ident answer =
        (Removed, st\<lparr>appointments := shift_left (appointments st) (int i) (appointmentCount st),
                      appointmentCount := appointmentCount st - 1\<rparr>)"
      using a ne f(1) by (simp add: cancelAppointment_def Let_def)
    have lv: "live_appointments (snd (cancelAppointment st ident answer)) =
        take i (live_appointments st) @ drop (Suc i) (live_appointments st)"
      unfolding del using live_shift_left[of "int i" "appointmentCount st" "appointments st"] lt
      by (simp add: live_appointments_def)
    show "let i = nat (findAppointmentIndex st ident);
           st' = snd (cancelAppointment st ident answer)
       in fst (cancelAppointment st ident answer) = Removed \<and>
          i < length (live_appointments st) \<and> a_id (live_appointments st ! i) = ident \<and>
          (\<forall>k<i. a_id (live_appointments st ! k) \<noteq> ident) \<and>
          live_appointments st' =
            take i (live_appointments st) @ drop (Suc i) (live_appointments st) \<and>
          appointmentCount st' = appointmentCount st - 1"
      unfolding Let_def i_def[symmetric] using lv f by (simp add: del)
  qed
  from p1 p2 p3 p4 a1 a2 a3 a4 show ?thesis by blast
qed

text \<open>
  Each of the eight cases, on the session with three patients and on the one with an
  appointment.
\<close>

theorem C4_witness:
  "deletePatient demo_state 0 ''y'' = (InvalidId, demo_state) \<and>
   deletePatient demo_state 9 ''y'' = (NotFound, demo_state) \<and>
   deletePatient demo_state 1 ''no'' = (NotConfirmed, demo_state) \<and>
   fst (deletePatient demo_state 2 ''y'') = Removed \<and>
   live_patients (snd (deletePatient demo_state 2 ''y'')) =
     [\<lparr>p_id = 1, p_name = ''Bob'', p_age = 41, p_gender = ''M'', p_phone = ''555-0101'',
        p_disease = ''flu'', p_doctorId = 0\<rparr>,
      \<lparr>p_id = 3, p_name = ''Charlie'', p_age = 35, p_gender = ''M'', p_phone = ''555-0103'',
        p_disease = ''cold'', p_doctorId = 0\<rparr>] \<and>
   patientCount (snd (deletePatient demo_state 2 ''y'')) = 2 \<and>
   cancelAppointment scheduled_state 0 ''y'' = (InvalidId, scheduled_state) \<and>
   cancelAppointment scheduled_state 5 ''y'' = (NotFound, scheduled_state) \<and>
   cancelAppointment scheduled_state 1 ''no'' = (NotConfirmed, scheduled_state) \<and>
   fst (cancelAppointment scheduled_state 1 ''Y'') = Removed \<and>
   live_appointments (snd (cancelAppointment scheduled_state 1 ''Y'')) = [] \<and>
   appointmentCount (snd (cancelAppointment scheduled_state 1 ''Y'')) = 0"
proof -
  have sc: "appointmentCount scheduled_state = 1" by code_simp
  have w1: "deletePatient demo_state 0 ''y'' = (InvalidId, demo_state)"
    and w5: "cancelAppointment scheduled_state 0 ''y'' = (InvalidId, scheduled_state)"
    using C4_delete_removes_exactly_one_record[of 0 demo_state "''y''"]
      C4_delete_removes_exactly_one_record[of 0 scheduled_state "''y''"] by simp_all
  have w2: "deletePatient demo_state 9 ''y'' = (NotFound, demo_state)"
    using C4_delete_removes_exactly_one_record[of 9 demo_state "''y''"]
    by (simp add: demo_patients)
  have w3: "deletePatient demo_state 1 ''no'' = (NotConfirmed, demo_state)"
    using C4_delete_removes_exactly_one_record[of 1 demo_state "''no''"]
    by (simp add: demo_patients confirmed_y)
  have w4: "fst (deletePatient demo_state 2 ''y'') = Removed \<and>
      live_patients (snd (deletePatient demo_state 2 ''y'')) =
        take 1 (live_patients demo_state) @ drop 2 (live_patients demo_state) \<and>
      patientCount (snd (deletePatient demo_state 2 ''y'')) = patientCount demo_state - 1"
    using C4_delete_removes_exactly_one_record[of 2 demo_state "''y''"]
    by (simp add: demo_patients confirmed_y demo_find Let_def)
  have w6: "cancelAppointment scheduled_state 5 ''y'' = (NotFound, scheduled_state)"
    using C4_delete_removes_exactly_one_record[of 5 scheduled_state "''y''"]
    by (simp add: scheduled_appointments)
  have w7: "cancelAppointment scheduled_state 1 ''no'' = (NotConfirmed, scheduled_state)"
    using C4_delete_removes_exactly_one_record[of 1 scheduled_state "''no''"]
    by (simp add: scheduled_appointments confirmed_y)
  have w8: "fst (cancelAppointment scheduled_state 1 ''Y'') = Removed \<and>
      live_appointments (snd (cancelAppointment scheduled_state 1 ''Y'')) =
        take 0 (live_appointments scheduled_state) @ drop 1 (live_appointments scheduled_state) \<and>
      appointmentCount (snd (cancelAppointment scheduled_state 1 ''Y'')) =
        appointmentCount scheduled_state - 1"
    using C4_delete_removes_exactly_one_record[of 1 scheduled_state "''Y''"]
    by (simp add: scheduled_appointments confirmed_y scheduled_find Let_def)
  from w1 w2 w3 w4 w5 w6 w7 w8 show ?thesis
    by (simp add: demo_patients demo_counts scheduled_appointments sc)
qed

text \<open>
  The claim as it was written fails at two inputs. The id 0 is absent from the patient
  table, and deleting it is reported as an invalid id, not as not found. The id 1 is present,
  and deleting it with the answer \<open>no\<close> removes nothing.
\<close>

theorem C4_counterexample:
  "0 \<notin> p_id ` set (live_patients demo_state) \<and>
   fst (deletePatient demo_state 0 ''y'') = InvalidId \<and>
   fst (deletePatient demo_state 0 ''y'') \<noteq> NotFound \<and>
   1 \<in> p_id ` set (live_patients demo_state) \<and>
   deletePatient demo_state 1 ''no'' = (NotConfirmed, demo_state)"
proof -
  have a: "0 \<notin> p_id ` set (live_patients demo_state)" "1 \<in> p_id ` set (live_patients demo_state)"
    unfolding demo_patients by simp_all
  have b: "deletePatient demo_state 0 ''y'' = (InvalidId, demo_state)"
    by (simp add: deletePatient_def)
  have nc: "\<not> confirmed ''no''" by code_simp
  have f: "findPatientIndex demo_state 1 \<noteq> - 1" using a(2) by (simp add: findPatientIndex_none)
  have c: "deletePatient demo_state 1 ''no'' = (NotConfirmed, demo_state)"
    using nc f by (simp add: deletePatient_def)
  from a b c show ?thesis by simp
qed

subsection \<open>C5: an appointment that names an unknown patient or doctor\<close>

text \<open>
  Claim C5, as the code has it. When \<open>pid\<close> is not the id of a live patient or \<open>did\<close> is
  not the id of a live doctor, \<open>addAppointment\<close> returns the state it was given: no
  appointment is appended, the next appointment id and every patient's \<open>doctorId\<close> are as
  before. The report is the invalid reference only when the appointment table is below its
  capacity and both the patient and the doctor table have a record; a full appointment table
  is reported first, and an empty patient or doctor table second.
\<close>

theorem C5_invalid_reference_leaves_state:
  assumes "pid \<notin> p_id ` set (live_patients st) \<or> did \<notin> d_id ` set (live_doctors st)"
  shows "snd (addAppointment st pid did date_in time_in) = st \<and>
         fst (addAppointment st pid did date_in time_in) =
           (if MAX_APPOINTS \<le> appointmentCount st then CapacityExceeded
            else if patientCount st = 0 \<or> doctorCount st = 0 then NeedPatientAndDoctor
            else InvalidReference)"
proof -
  from assms have "findPatientIndex st pid = - 1 \<or> findDoctorIndex st did = - 1"
    by (simp add: findPatientIndex_none findDoctorIndex_none)
  then show ?thesis
    by (auto simp: addAppointment_def Let_def)
qed

text \<open>
  An unknown patient, an unknown doctor, and the empty database.
\<close>

theorem C5_witness:
  "9 \<notin> p_id ` set (live_patients demo_state) \<and>
   addAppointment demo_state 9 1 ''2025-01-15'' ''09:30'' = (InvalidReference, demo_state) \<and>
   8 \<notin> d_id ` set (live_doctors demo_state) \<and>
   addAppointment demo_state 1 8 ''2025-01-15'' ''09:30'' = (InvalidReference, demo_state) \<and>
   addAppointment initial_state 1 1 ''2025-01-15'' ''09:30'' = (NeedPatientAndDoctor, initial_state)"
proof -
  have h: "9 \<notin> p_id ` set (live_patients demo_state)" "8 \<notin> d_id ` set (live_doctors demo_state)"
    by (simp_all add: demo_patients demo_doctors)
  have i: "1 \<notin> p_id ` set (live_patients initial_state)"
    by (simp add: live_patients_def live_def initial_state_def)
  from h(1) have h1: "9 \<notin> p_id ` set (live_patients demo_state) \<or> 1 \<notin> d_id ` set (live_doctors demo_state)"
    by simp
  from h(2) have h2: "1 \<notin> p_id ` set (live_patients demo_state) \<or> 8 \<notin> d_id ` set (live_doctors demo_state)"
    by simp
  from i have h3: "1 \<notin> p_id ` set (live_patients initial_state) \<or> 1 \<notin> d_id ` set (live_doctors initial_state)"
    by simp
  have a: "addAppointment demo_state 9 1 ''2025-01-15'' ''09:30'' = (InvalidReference, demo_state)"
    using C5_invalid_reference_leaves_state[OF h1, of "''2025-01-15''" "''09:30''"]
    by (simp add: demo_counts MAX_APPOINTS_def prod_eq_iff)
  have b: "addAppointment demo_state 1 8 ''2025-01-15'' ''09:30'' = (InvalidReference, demo_state)"
    using C5_invalid_reference_leaves_state[OF h2, of "''2025-01-15''" "''09:30''"]
    by (simp add: demo_counts MAX_APPOINTS_def prod_eq_iff)
  have c: "addAppointment initial_state 1 1 ''2025-01-15'' ''09:30'' = (NeedPatientAndDoctor, initial_state)"
    using C5_invalid_reference_leaves_state[OF h3, of "''2025-01-15''" "''09:30''"]
    by (simp add: initial_state_def MAX_APPOINTS_def prod_eq_iff)
  from h a b c show ?thesis by simp
qed

text \<open>
  The claim as it was written fails at two inputs. On a full appointment table, reached by
  1800 adds from the empty database, patient 999 does not exist, and the report is that the
  capacity is exceeded. In the empty database patient 1 does not exist, and the report is
  that a patient and a doctor are needed. Neither is the invalid reference.
\<close>

theorem C5_counterexample:
  "snd (run True insertion_qsort initial_state full_ops) = full_state \<and>
   999 \<notin> p_id ` set (live_patients full_state) \<and>
   appointmentCount full_state = MAX_APPOINTS \<and>
   addAppointment full_state 999 1 ''2025-01-15'' ''09:30'' = (CapacityExceeded, full_state) \<and>
   fst (addAppointment full_state 999 1 ''2025-01-15'' ''09:30'') \<noteq> InvalidReference \<and>
   1 \<notin> p_id ` set (live_patients initial_state) \<and>
   addAppointment initial_state 1 1 ''2025-01-15'' ''09:30'' = (NeedPatientAndDoctor, initial_state) \<and>
   fst (addAppointment initial_state 1 1 ''2025-01-15'' ''09:30'') \<noteq> InvalidReference"
proof -
  have "999 \<notin> p_id ` set (live_patients full_state)"
    by (auto simp: live_patients_def set_live full_state_def zero_Patient_def)
  moreover have "appointmentCount full_state = MAX_APPOINTS"
    by (simp add: full_state_def MAX_APPOINTS_def)
  moreover have "addAppointment full_state 999 1 ''2025-01-15'' ''09:30'' = (CapacityExceeded, full_state)"
    by (simp add: addAppointment_def full_state_def MAX_APPOINTS_def)
  moreover have "1 \<notin> p_id ` set (live_patients initial_state)"
    by (simp add: live_patients_def live_def initial_state_def)
  moreover have "addAppointment initial_state 1 1 ''2025-01-15'' ''09:30'' =
      (NeedPatientAndDoctor, initial_state)"
    by (simp add: addAppointment_def initial_state_def MAX_APPOINTS_def)
  ultimately show ?thesis using full_state_run[of True insertion_qsort] by simp
qed

subsection \<open>C6: an add to a full table\<close>

text \<open>
  Claim C6. The bounds are 500 patients, 200 diseases, 100 doctors and 1000 appointments.
  When the count of a table has reached its bound, the add operation of that table reports
  that the capacity is exceeded and returns the state it was given (the table, its count and
  its next id included). Adding a 501st patient leaves 500 live patients.
\<close>

theorem C6_add_at_capacity_is_noop:
  "MAX_PATIENTS = 500 \<and> MAX_DISEASES = 200 \<and> MAX_DOCTORS = 100 \<and> MAX_APPOINTS = 1000 \<and>
   (MAX_PATIENTS \<le> patientCount st \<longrightarrow>
      addPatient st name_in age gender_in phone_in disease_in docId = (CapacityExceeded, st)) \<and>
   (MAX_DISEASES \<le> diseaseCount st \<longrightarrow>
      addDisease st dname_in symptoms_in treatment_in = (CapacityExceeded, st)) \<and>
   (MAX_DOCTORS \<le> doctorCount st \<longrightarrow>
      addDoctor st docname_in spec_in docphone_in = (CapacityExceeded, st)) \<and>
   (MAX_APPOINTS \<le> appointmentCount st \<longrightarrow>
      addAppointment st pid did date_in time_in = (CapacityExceeded, st)) \<and>
   (patientCount st = 500 \<longrightarrow>
      length (live_patients (snd (addPatient st name_in age gender_in phone_in disease_in docId)))
        = 500)"
  by (simp add: MAX_PATIENTS_def MAX_DISEASES_def MAX_DOCTORS_def MAX_APPOINTS_def
      addPatient_def addDisease_def addDoctor_def addAppointment_def live_patients_def)

text \<open>
  All four adds on the state whose four tables are full, which 1800 adds from the empty
  database reach.
\<close>

theorem C6_witness:
  "snd (run True insertion_qsort initial_state full_ops) = full_state \<and>
   MAX_PATIENTS \<le> patientCount full_state \<and> MAX_DISEASES \<le> diseaseCount full_state \<and>
   MAX_DOCTORS \<le> doctorCount full_state \<and> MAX_APPOINTS \<le> appointmentCount full_state \<and>
   patientCount full_state = 500 \<and>
   addPatient full_state ''Eve'' 30 ''F'' ''555-0199'' ''flu'' 1 = (CapacityExceeded, full_state) \<and>
   addDisease full_state ''flu'' ''fever'' ''rest'' = (CapacityExceeded, full_state) \<and>
   addDoctor full_state ''Dr. Who'' ''Surgery'' ''555-0198'' = (CapacityExceeded, full_state) \<and>
   addAppointment full_state 1 1 ''2025-01-15'' ''09:30'' = (CapacityExceeded, full_state) \<and>
   length (live_patients (snd (addPatient full_state ''Eve'' 30 ''F'' ''555-0199'' ''flu'' 1))) = 500"
proof -
  have h: "MAX_PATIENTS \<le> patientCount full_state" "MAX_DISEASES \<le> diseaseCount full_state"
    "MAX_DOCTORS \<le> doctorCount full_state" "MAX_APPOINTS \<le> appointmentCount full_state"
    "patientCount full_state = 500"
    by (simp_all add: full_state_def MAX_PATIENTS_def MAX_DISEASES_def MAX_DOCTORS_def
        MAX_APPOINTS_def)
  from C6_add_at_capacity_is_noop[of full_state "''Eve''" 30 "''F''" "''555-0199''" "''flu''" 1
      "''flu''" "''fever''" "''rest''" "''Dr. Who''" "''Surgery''" "''555-0198''" 1 1
      "''2025-01-15''" "''09:30''"] h full_state_run[of True insertion_qsort]
  show ?thesis by blast
qed

subsection \<open>C7: the sort by name\<close>

text \<open>
  Claim C7. Let \<^verbatim>\<open>qsort\<close> keep its contract. With fewer than two patients
  \<open>sortPatientsByName\<close> reports that there is not enough to sort and returns the state it
  was given. With two patients or more it reports the sort, the live patients afterwards are
  a permutation of the live patients before, and they are sorted by the key of the name: the
  lexicographic order of the names with their capitals folded. Nothing is required of
  patients with equal keys. The count and everything outside the patient table are
  unchanged. The patients named Bob, alice, Charlie come out as alice, Bob, Charlie,
  whatever \<^verbatim>\<open>qsort\<close> does with ties.
\<close>

theorem C7_sort_patients_by_name:
  assumes "qsort_contract qsort"
  shows "(patientCount st < 2 \<longrightarrow> sortPatientsByName sg qsort st = (NotEnoughToSort, st)) \<and>
   (2 \<le> patientCount st \<longrightarrow>
      (let st' = snd (sortPatientsByName sg qsort st)
       in fst (sortPatientsByName sg qsort st) = Sorted \<and>
          mset (live_patients st') = mset (live_patients st) \<and>
          sorted (map (\<lambda>p. name_key sg (p_name p)) (live_patients st')) \<and>
          patientCount st' = patientCount st \<and>
          st' = st\<lparr>patients := patients st'\<rparr>)) \<and>
   map p_name (live_patients demo_state) = [''Bob'', ''alice'', ''Charlie''] \<and>
   map p_name (live_patients (snd (sortPatientsByName sg qsort demo_state))) =
     [''alice'', ''Bob'', ''Charlie'']"
proof -
  have a: "patientCount st < 2 \<longrightarrow> sortPatientsByName sg qsort st = (NotEnoughToSort, st)"
    by (simp add: sortPatientsByName_def)
  have b: "2 \<le> patientCount st \<longrightarrow>
      (let st' = snd (sortPatientsByName sg qsort st)
       in fst (sortPatientsByName sg qsort st) = Sorted \<and>
          mset (live_patients st') = mset (live_patients st) \<and>
          sorted (map (\<lambda>p. name_key sg (p_name p)) (live_patients st')) \<and>
          patientCount st' = patientCount st \<and>
          st' = st\<lparr>patients := patients st'\<rparr>)"
  proof
    assume two: "2 \<le> patientCount st"
    note t = sortPatientsByName_sorted[OF assms two, of sg]
    have "patientCount (snd (sortPatientsByName sg qsort st)) = patientCount st"
      "snd (sortPatientsByName sg qsort st) =
         st\<lparr>patients := patients (snd (sortPatientsByName sg qsort st))\<rparr>"
      using two by (simp_all add: sortPatientsByName_def)
    with t(1,3,4) show "let st' = snd (sortPatientsByName sg qsort st)
       in fst (sortPatientsByName sg qsort st) = Sorted \<and>
          mset (live_patients st') = mset (live_patients st) \<and>
          sorted (map (\<lambda>p. name_key sg (p_name p)) (live_patients st')) \<and>
          patientCount st' = patientCount st \<and>
          st' = st\<lparr>patients := patients st'\<rparr>"
      unfolding Let_def by blast
  qed
  have two: "2 \<le> patientCount demo_state" by (simp add: demo_counts)
  note d = sortPatientsByName_sorted[OF assms two, of sg]
  have c: "map p_name (live_patients (snd (sortPatientsByName sg qsort demo_state))) =
     [''alice'', ''Bob'', ''Charlie'']"
    by (rule demo_sorted_unique[OF d(3) d(4)])
  have e: "map p_name (live_patients demo_state) = [''Bob'', ''alice'', ''Charlie'']"
    by (simp add: demo_patients)
  from a b c e show ?thesis by blast
qed

text \<open>
  The insertion sort keeps the contract; with it, Bob, alice and Charlie (ids 1, 2, 3) come
  out in the order 2, 1, 3, and the empty table is left alone.
\<close>

theorem C7_witness:
  "qsort_contract insertion_qsort \<and> 2 \<le> patientCount demo_state \<and>
   fst (sortPatientsByName True insertion_qsort demo_state) = Sorted \<and>
   map p_id (live_patients (snd (sortPatientsByName True insertion_qsort demo_state))) = [2, 1, 3] \<and>
   map p_name (live_patients (snd (sortPatientsByName True insertion_qsort demo_state))) =
     [''alice'', ''Bob'', ''Charlie''] \<and>
   patientCount initial_state < 2 \<and>
   sortPatientsByName True insertion_qsort initial_state = (NotEnoughToSort, initial_state)"
proof -
  have two: "2 \<le> patientCount demo_state" by (simp add: demo_counts)
  have lt: "patientCount initial_state < 2" by (simp add: initial_state_def)
  have ids: "map p_id (live_patients (snd (sortPatientsByName True insertion_qsort demo_state))) = [2, 1, 3]"
    by code_simp
  from C7_sort_patients_by_name[OF insertion_qsort_contract, of demo_state True] two
  have "fst (sortPatientsByName True insertion_qsort demo_state) = Sorted"
    "map p_name (live_patients (snd (sortPatientsByName True insertion_qsort demo_state))) =
     [''alice'', ''Bob'', ''Charlie'']"
    by (simp_all add: Let_def)
  moreover
  from C7_sort_patients_by_name[OF insertion_qsort_contract, of initial_state True] lt
  have "sortPatientsByName True insertion_qsort initial_state = (NotEnoughToSort, initial_state)"
    by simp
  ultimately show ?thesis using insertion_qsort_contract two lt ids by blast
qed

subsection \<open>C8: the search by name\<close>

text \<open>
  Claim C8. \<open>searchPatientByName\<close> returns, in table order, exactly the live patients whose
  whole name equals the query when capitals are folded, and returns the state as it was.
  The query is read into a buffer of 100 bytes, so it is the first 99 characters of the line
  that count; for a line that fits, it is the line. The queries \<^verbatim>\<open>john\<close>, \<^verbatim>\<open>John\<close>
  and \<^verbatim>\<open>JOHN\<close> give the same result on every state.
\<close>

theorem C8_search_by_name_exact_match_ignoring_case:
  "searchPatientByName sg st name_in =
     (filter (\<lambda>p. equal_ignoring_case (p_name p) (take 99 name_in)) (live_patients st), st) \<and>
   (length name_in < 100 \<longrightarrow>
      fst (searchPatientByName sg st name_in) =
        filter (\<lambda>p. equal_ignoring_case (p_name p) name_in) (live_patients st)) \<and>
   searchPatientByName sg st ''john'' = searchPatientByName sg st ''John'' \<and>
   searchPatientByName sg st ''john'' = searchPatientByName sg st ''JOHN''"
proof -
  have g: "searchPatientByName sg st q =
     (filter (\<lambda>p. equal_ignoring_case (p_name p) (take 99 q)) (live_patients st), st)" for q
    by (simp add: searchPatientByName_def Let_def getLine_def stricmp_custom_zero
        equal_ignoring_case_cstr)
  have f: "map ascii_fold (cstr ''john'') = ''john''" "map ascii_fold (cstr ''John'') = ''john''"
    "map ascii_fold (cstr ''JOHN'') = ''john''"
    by code_simp+
  have e: "equal_ignoring_case a ''John'' = equal_ignoring_case a ''john''"
    "equal_ignoring_case a ''JOHN'' = equal_ignoring_case a ''john''" for a
    by (simp_all add: equal_ignoring_case_def f)
  show ?thesis
    unfolding g by (simp add: e)
qed

text \<open>
  Among John, Johnny, JOHN, john and Joh, the query \<^verbatim>\<open>john\<close> finds John, JOHN and
  john, not Johnny and not Joh; the query \<^verbatim>\<open>jo\<close> finds nothing.
\<close>

theorem C8_witness:
  "length ''john'' < 100 \<and> length ''JOHN'' < 100 \<and>
   map p_name (live_patients johns_state) = [''John'', ''Johnny'', ''JOHN'', ''john'', ''Joh''] \<and>
   map p_name (fst (searchPatientByName True johns_state ''john'')) = [''John'', ''JOHN'', ''john''] \<and>
   map p_name (fst (searchPatientByName True johns_state ''JOHN'')) = [''John'', ''JOHN'', ''john''] \<and>
   map p_name (fst (searchPatientByName True johns_state ''jo'')) = [] \<and>
   snd (searchPatientByName True johns_state ''john'') = johns_state"
proof -
  have f: "map p_name (filter (\<lambda>p. equal_ignoring_case (p_name p) ''john'') (live_patients johns_state))
      = [''John'', ''JOHN'', ''john'']"
    "map p_name (filter (\<lambda>p. equal_ignoring_case (p_name p) ''JOHN'') (live_patients johns_state))
      = [''John'', ''JOHN'', ''john'']"
    "map p_name (filter (\<lambda>p. equal_ignoring_case (p_name p) ''jo'') (live_patients johns_state))
      = []"
    by code_simp+
  note t = C8_search_by_name_exact_match_ignoring_case
  from t[of True johns_state "''john''"] have a:
    "map p_name (fst (searchPatientByName True johns_state ''john'')) = [''John'', ''JOHN'', ''john'']"
    "snd (searchPatientByName True johns_state ''john'') = johns_state"
    using f(1) by simp_all
  from t[of True johns_state "''JOHN''"] have b:
    "map p_name (fst (searchPatientByName True johns_state ''JOHN'')) = [''John'', ''JOHN'', ''john'']"
    using f(2) by simp
  from t[of True johns_state "''jo''"] have c:
    "map p_name (fst (searchPatientByName True johns_state ''jo'')) = []"
    using f(3) by simp
  from a b c johns_patients(1) show ?thesis by simp
qed

subsection \<open>C9: an unknown doctor at patient intake\<close>

text \<open>
  Claim C9. Let the patient table be below its capacity and \<open>docId\<close> be the id of no live
  doctor (in particular when there is no doctor at all). Then \<open>addPatient\<close> still adds the
  patient, with the next patient id and with \<open>doctorId\<close> 0, and the result is the one of
  the same call with the doctor id 0.
\<close>

theorem C9_unknown_doctor_falls_back_to_unassigned:
  assumes "0 \<le> patientCount st" and "patientCount st < MAX_PATIENTS"
    and "docId \<notin> d_id ` set (live_doctors st)"
  shows "addPatient st name_in age gender_in phone_in disease_in docId =
           addPatient st name_in age gender_in phone_in disease_in 0 \<and>
         fst (addPatient st name_in age gender_in phone_in disease_in docId) =
           PatientAdded (nextPatientId st) \<and>
         live_patients (snd (addPatient st name_in age gender_in phone_in disease_in docId)) =
           live_patients st @
             [\<lparr>p_id = nextPatientId st,
               p_name = strncpy_field 100 (getLine 200 name_in),
               p_age = age,
               p_gender = strncpy_field 10 (getLine 200 gender_in),
               p_phone = strncpy_field 20 (getLine 200 phone_in),
               p_disease = strncpy_field 100 (getLine 200 disease_in),
               p_doctorId = 0\<rparr>]"
proof -
  from assms(3) have "findDoctorIndex st docId = - 1" by (simp add: findDoctorIndex_none)
  with assms(1,2) show ?thesis
    by (simp add: addPatient_def Let_def live_patients_def live_upd_append)
qed

text \<open>
  Doctor 7 does not exist in the session with one doctor; and in the empty database no
  doctor exists.
\<close>

theorem C9_witness:
  "0 \<le> patientCount demo_state \<and> patientCount demo_state < MAX_PATIENTS \<and>
   7 \<notin> d_id ` set (live_doctors demo_state) \<and>
   fst (addPatient demo_state ''Dana'' 52 ''F'' ''555-0104'' ''gout'' 7) = PatientAdded 4 \<and>
   live_patients (snd (addPatient demo_state ''Dana'' 52 ''F'' ''555-0104'' ''gout'' 7)) =
     live_patients demo_state @
       [\<lparr>p_id = 4, p_name = ''Dana'', p_age = 52, p_gender = ''F'', p_phone = ''555-0104'',
          p_disease = ''gout'', p_doctorId = 0\<rparr>] \<and>
   addPatient demo_state ''Dana'' 52 ''F'' ''555-0104'' ''gout'' 7 =
     addPatient demo_state ''Dana'' 52 ''F'' ''555-0104'' ''gout'' 0 \<and>
   0 \<le> patientCount initial_state \<and> patientCount initial_state < MAX_PATIENTS \<and>
   3 \<notin> d_id ` set (live_doctors initial_state) \<and>
   p_doctorId (hd (live_patients (snd (addPatient initial_state ''Dana'' 52 ''F'' ''555-0104'' ''gout'' 3)))) = 0"
proof -
  have h: "0 \<le> patientCount demo_state" "patientCount demo_state < MAX_PATIENTS"
    "7 \<notin> d_id ` set (live_doctors demo_state)"
    by (simp_all add: demo_counts MAX_PATIENTS_def demo_doctors)
  have i: "0 \<le> patientCount initial_state" "patientCount initial_state < MAX_PATIENTS"
    "3 \<notin> d_id ` set (live_doctors initial_state)"
    by (simp_all add: initial_state_def MAX_PATIENTS_def live_doctors_def live_def)
  have s: "strncpy_field 100 (getLine 200 ''Dana'') = ''Dana''"
    "strncpy_field 10 (getLine 200 ''F'') = ''F''"
    "strncpy_field 20 (getLine 200 ''555-0104'') = ''555-0104''"
    "strncpy_field 100 (getLine 200 ''gout'') = ''gout''"
    by code_simp+
  have e: "live_patients initial_state = []"
    by (simp add: live_patients_def live_def initial_state_def)
  note t = C9_unknown_doctor_falls_back_to_unassigned[OF h, of "''Dana''" 52 "''F''" "''555-0104''" "''gout''"]
  note u = C9_unknown_doctor_falls_back_to_unassigned[OF i, of "''Dana''" 52 "''F''" "''555-0104''" "''gout''"]
  have t1: "fst (addPatient demo_state ''Dana'' 52 ''F'' ''555-0104'' ''gout'' 7) = PatientAdded 4"
    using t[THEN conjunct2, THEN conjunct1] by (simp add: demo_counts)
  have t2: "live_patients (snd (addPatient demo_state ''Dana'' 52 ''F'' ''555-0104'' ''gout'' 7)) =
     live_patients demo_state @
       [\<lparr>p_id = 4, p_name = ''Dana'', p_age = 52, p_gender = ''F'', p_phone = ''555-0104'',
          p_disease = ''gout'', p_doctorId = 0\<rparr>]"
    using t[THEN conjunct2, THEN conjunct2] by (simp add: s demo_counts)
  have u2: "p_doctorId (hd (live_patients (snd (addPatient initial_state ''Dana'' 52 ''F'' ''555-0104'' ''gout'' 3)))) = 0"
    using u[THEN conjunct2, THEN conjunct2] by (simp add: e)
  from h i t1 t2 u2 t[THEN conjunct1] show ?thesis by blast
qed

subsection \<open>C10: what deleting a patient and cancelling an appointment leave alone\<close>

text \<open>
  Claim C10. \<open>deletePatient\<close> writes to the patient table and its count only: the
  appointments, also those of the deleted patient, the doctors, the diseases and the four
  next ids are as before. \<open>cancelAppointment\<close> writes to the appointment table and its
  count only: no patient's \<open>doctorId\<close> changes. An appointment whose patient id is the id
  of no live patient is listed with the patient name \<^verbatim>\<open>Unknown\<close>. Both happen in the
  session where patient 1 adopts doctor 1 through an appointment: after the patient is
  deleted, the appointment still names patient 1, whom no live patient has as id, and is
  listed as \<^verbatim>\<open>Unknown\<close>; after the appointment is cancelled instead, patient 1 still has
  doctor 1.
\<close>

theorem C10_delete_and_cancel_frame:
  "(let st' = snd (deletePatient st ident answer)
    in appointments st' = appointments st \<and> appointmentCount st' = appointmentCount st \<and>
       live_appointments st' = live_appointments st \<and>
       doctors st' = doctors st \<and> doctorCount st' = doctorCount st \<and>
       diseases st' = diseases st \<and> diseaseCount st' = diseaseCount st \<and>
       nextPatientId st' = nextPatientId st \<and> nextDiseaseId st' = nextDiseaseId st \<and>
       nextDoctorId st' = nextDoctorId st \<and> nextAppointmentId st' = nextAppointmentId st) \<and>
   (let st' = snd (cancelAppointment st ident answer)
    in patients st' = patients st \<and> patientCount st' = patientCount st \<and>
       live_patients st' = live_patients st \<and>
       doctors st' = doctors st \<and> doctorCount st' = doctorCount st \<and>
       diseases st' = diseases st \<and> diseaseCount st' = diseaseCount st \<and>
       nextPatientId st' = nextPatientId st \<and> nextDiseaseId st' = nextDiseaseId st \<and>
       nextDoctorId st' = nextDoctorId st \<and> nextAppointmentId st' = nextAppointmentId st) \<and>
   (a_patientId a \<notin> p_id ` set (live_patients st) \<longrightarrow>
      fst (snd (appointment_row_of st a)) = ''Unknown'') \<and>
   map a_patientId (live_appointments (snd (deletePatient scheduled_state 1 ''y''))) = [1] \<and>
   map p_id (live_patients (snd (deletePatient scheduled_state 1 ''y''))) = [2, 3] \<and>
   fst (displayAppointments (snd (deletePatient scheduled_state 1 ''y''))) =
     [(1, ''Unknown'', 1, ''Dr. Smith'', 1, ''2025-01-15'', ''09:30'')] \<and>
   map p_doctorId (live_patients demo_state) = [0, 1, 0] \<and>
   map p_doctorId (live_patients scheduled_state) = [1, 1, 0] \<and>
   live_appointments (snd (cancelAppointment scheduled_state 1 ''y'')) = [] \<and>
   map p_doctorId (live_patients (snd (cancelAppointment scheduled_state 1 ''y''))) = [1, 1, 0]"
proof -
  have frame: "(let st' = snd (deletePatient st ident answer)
    in appointments st' = appointments st \<and> appointmentCount st' = appointmentCount st \<and>
       live_appointments st' = live_appointments st \<and>
       doctors st' = doctors st \<and> doctorCount st' = doctorCount st \<and>
       diseases st' = diseases st \<and> diseaseCount st' = diseaseCount st \<and>
       nextPatientId st' = nextPatientId st \<and> nextDiseaseId st' = nextDiseaseId st \<and>
       nextDoctorId st' = nextDoctorId st \<and> nextAppointmentId st' = nextAppointmentId st) \<and>
   (let st' = snd (cancelAppointment st ident answer)
    in patients st' = patients st \<and> patientCount st' = patientCount st \<and>
       live_patients st' = live_patients st \<and>
       doctors st' = doctors st \<and> doctorCount st' = doctorCount st \<and>
       diseases st' = diseases st \<and> diseaseCount st' = diseaseCount st \<and>
       nextPatientId st' = nextPatientId st \<and> nextDiseaseId st' = nextDiseaseId st \<and>
       nextDoctorId st' = nextDoctorId st \<and> nextAppointmentId st' = nextAppointmentId st) \<and>
   (a_patientId a \<notin> p_id ` set (live_patients st) \<longrightarrow>
      fst (snd (appointment_row_of st a)) = ''Unknown'')"
    by (simp add: deletePatient_def cancelAppointment_def Let_def live_appointments_def
        live_patients_def appointment_row_of_def findPatientIndex_none[unfolded live_patients_def])
  have scenario:
    "map a_patientId (live_appointments (snd (deletePatient scheduled_state 1 ''y''))) = [1]"
    "map p_id (live_patients (snd (deletePatient scheduled_state 1 ''y''))) = [2, 3]"
    "map p_doctorId (live_patients demo_state) = [0, 1, 0]"
    "map p_doctorId (live_patients scheduled_state) = [1, 1, 0]"
    by (simp_all add: after_delete demo_patients scheduled_patients)
  from frame scenario after_delete(3) after_cancel show ?thesis by blast
qed

text \<open>
  The appointment of the deleted patient 1: its patient id is the id of no live patient,
  its row shows \<^verbatim>\<open>Unknown\<close>, and the delete and the cancel left the other table alone.
\<close>

theorem C10_witness:
  "a_patientId \<lparr>a_id = 1, a_patientId = 1, a_doctorId = 1, a_date = ''2025-01-15'', a_time = ''09:30''\<rparr>
     \<notin> p_id ` set (live_patients (snd (deletePatient scheduled_state 1 ''y''))) \<and>
   fst (snd (appointment_row_of (snd (deletePatient scheduled_state 1 ''y''))
     \<lparr>a_id = 1, a_patientId = 1, a_doctorId = 1, a_date = ''2025-01-15'', a_time = ''09:30''\<rparr>))
     = ''Unknown'' \<and>
   fst (deletePatient scheduled_state 1 ''y'') = Removed \<and>
   live_appointments (snd (deletePatient scheduled_state 1 ''y'')) = live_appointments scheduled_state \<and>
   fst (cancelAppointment scheduled_state 1 ''y'') = Removed \<and>
   live_patients (snd (cancelAppointment scheduled_state 1 ''y'')) = live_patients scheduled_state"
proof -
  let ?d = "snd (deletePatient scheduled_state 1 ''y'')"
  let ?a = "\<lparr>a_id = 1, a_patientId = 1, a_doctorId = 1, a_date = ''2025-01-15'', a_time = ''09:30''\<rparr>"
  have r: "fst (deletePatient scheduled_state 1 ''y'') = Removed"
    "fst (cancelAppointment scheduled_state 1 ''y'') = Removed" by code_simp+
  have absent: "a_patientId ?a \<notin> p_id ` set (live_patients ?d)" by (simp add: after_delete)
  from C10_delete_and_cancel_frame[of scheduled_state 1 "''y''" ?a] C10_delete_and_cancel_frame[of ?d 1 "''y''" ?a] absent
  have "live_appointments ?d = live_appointments scheduled_state"
    "live_patients (snd (cancelAppointment scheduled_state 1 ''y'')) = live_patients scheduled_state"
    "fst (snd (appointment_row_of ?d ?a)) = ''Unknown''"
    by (simp_all add: Let_def)
  with r absent show ?thesis by blast
qed

end
